theory Spec2Isabelle
  imports Main "HOL-Library.Char_ord" "HOL-Library.List_Lexorder" "HOL-Library.Multiset"
begin

section \<open>Strings, errors and the platform's path functions\<close>

text \<open>
  A JavaScript string is modelled as a \<^typ>\<open>string\<close> holding its UTF-8 bytes. The
  operations of \<^verbatim>\<open>index.js\<close> on strings are concatenation, \<^verbatim>\<open>slice(0, 12)\<close>,
  \<^verbatim>\<open>startsWith('.git')\<close>, \<^verbatim>\<open>===\<close> and the default \<^verbatim>\<open>Array.prototype.sort\<close>. The
  first four read the same on bytes as on UTF-16 code units; the default sort compares
  code units lexicographically, which is the lexicographic order of the bytes
  (\<^theory_text>\<open>List_Lexorder\<close> over \<^theory_text>\<open>Char_ord\<close>) for all names without characters outside
  the Basic Multilingual Plane.

  A thrown \<^verbatim>\<open>Error\<close> is modelled by its \<^verbatim>\<open>message\<close>, the only field the code reads.
\<close>

type_synonym error = string

definition startsWith :: "string \<Rightarrow> string \<Rightarrow> bool" where
  "startsWith s p = (take (length p) s = p)"

text \<open>
  \<^verbatim>\<open>path.join\<close> is Node's, not this repository's. It is modelled here for POSIX after its
  documented behaviour: the non-empty arguments are joined with \<^verbatim>\<open>/\<close> and the result is
  normalised (empty and \<^verbatim>\<open>.\<close> segments dropped, \<^verbatim>\<open>..\<close> removing the segment before it,
  a trailing separator kept, \<^verbatim>\<open>.\<close> for an empty result).
\<close>

fun split_slash :: "string \<Rightarrow> string list" where
  "split_slash [] = [[]]"
| "split_slash (c # cs) =
     (if c = CHR ''/'' then [] # split_slash cs
      else (case split_slash cs of
              [] \<Rightarrow> [[c]]
            | s # ss \<Rightarrow> (c # s) # ss))"

fun join_slash :: "string list \<Rightarrow> string" where
  "join_slash [] = []"
| "join_slash [s] = s"
| "join_slash (s # t # ss) = s @ ''/'' @ join_slash (t # ss)"

text \<open>
  \<open>normalize_segments allowAboveRoot stack segs\<close>: the loop of Node's \<^verbatim>\<open>normalizeString\<close>,
  one segment at a time; \<open>stack\<close> holds the segments kept so far.
\<close>

fun normalize_segments :: "bool \<Rightarrow> string list \<Rightarrow> string list \<Rightarrow> string list" where
  "normalize_segments allowAboveRoot stack [] = stack"
| "normalize_segments allowAboveRoot stack (s # ss) =
     (if s = [] \<or> s = ''.'' then normalize_segments allowAboveRoot stack ss
      else if s = ''..'' then
        (if stack \<noteq> [] \<and> last stack \<noteq> ''..''
           then normalize_segments allowAboveRoot (butlast stack) ss
         else if allowAboveRoot
           then normalize_segments allowAboveRoot (stack @ [''..'']) ss
         else normalize_segments allowAboveRoot stack ss)
      else normalize_segments allowAboveRoot (stack @ [s]) ss)"

definition isAbsolute :: "string \<Rightarrow> bool" where
  "isAbsolute p = (p \<noteq> [] \<and> hd p = CHR ''/'')"

definition trailingSeparator :: "string \<Rightarrow> bool" where
  "trailingSeparator p = (p \<noteq> [] \<and> last p = CHR ''/'')"

definition path_segments :: "string \<Rightarrow> string list" where
  "path_segments p = normalize_segments (\<not> isAbsolute p) [] (split_slash p)"

definition path_normalize :: "string \<Rightarrow> string" where
  "path_normalize p =
     (if p = [] then ''.''
      else
        let res = join_slash (path_segments p) in
        if res = [] then
          (if isAbsolute p then ''/'' else if trailingSeparator p then ''./'' else ''.'')
        else
          (if isAbsolute p then ''/'' else []) @ res @
          (if trailingSeparator p then ''/'' else []))"

definition path_join :: "string list \<Rightarrow> string" where
  "path_join args =
     (let parts = filter (\<lambda>a. a \<noteq> []) args in
      if parts = [] then ''.'' else path_normalize (join_slash parts))"

section \<open>The environment: file system, git and digest primitives\<close>

text \<open>
  The libraries \<^verbatim>\<open>fs-extra\<close>, \<^verbatim>\<open>simple-git\<close>, \<^verbatim>\<open>crypto\<close> and \<^verbatim>\<open>os\<close> are collaborators of
  the program. They are parameters of the model: a record of functions over a world \<open>'w\<close>
  (the disk and the network). A primitive that can throw returns the thrown message;
  a primitive with an effect returns the next world, also when it throws.
\<close>

text \<open>One element of the array that \<^verbatim>\<open>getRemotes(true)\<close> resolves to.\<close>

record remote =
  remote_name :: string
  refs_fetch :: string
  refs_push :: string

text \<open>
  What the file system holds at a path, as \<^verbatim>\<open>readdir\<close> and \<^verbatim>\<open>stat\<close> see it: a directory
  with its entries in the order \<^verbatim>\<open>readdir\<close> lists them, a directory that cannot be listed,
  anything else that \<^verbatim>\<open>stat\<close> accepts (a file), or a path on which \<^verbatim>\<open>stat\<close> throws.
  A directory state is a finite tree: links that lead back into the tree, on which the
  recursion of the renderer would not end, are outside the model.
\<close>

datatype node =
    File
  | Dir "(string \<times> node) list"
  | DirUnreadable error
  | StatFails error

text \<open>
  \<open>os_tmpdir\<close> is \<^verbatim>\<open>os.tmpdir()\<close>; \<open>sha256_hex\<close> is
  \<^verbatim>\<open>crypto.createHash('sha256').update(s).digest('hex')\<close>; \<open>git_getRemotes\<close> is
  \<^verbatim>\<open>simpleGit(dir).getRemotes(true)\<close>; \<open>git_clone\<close> is \<^verbatim>\<open>simpleGit().clone(url, dir)\<close>;
  \<open>fs_pathExists\<close>, \<open>fs_remove\<close>, \<open>fs_ensureDir\<close> and \<open>fs_readFile\<close> (with \<^verbatim>\<open>'utf8'\<close>) are
  the functions of \<^verbatim>\<open>fs-extra\<close>; \<open>fs_node\<close> is the directory state that \<^verbatim>\<open>readdir\<close> and
  \<^verbatim>\<open>stat\<close> find at a path.
\<close>

record 'w env =
  os_tmpdir :: string
  sha256_hex :: "string \<Rightarrow> string"
  fs_pathExists :: "string \<Rightarrow> 'w \<Rightarrow> bool"
  git_getRemotes :: "string \<Rightarrow> 'w \<Rightarrow> error + remote list"
  fs_remove :: "string \<Rightarrow> 'w \<Rightarrow> error option \<times> 'w"
  fs_ensureDir :: "string \<Rightarrow> 'w \<Rightarrow> error option \<times> 'w"
  git_clone :: "string \<Rightarrow> string \<Rightarrow> 'w \<Rightarrow> error option \<times> 'w"
  fs_node :: "string \<Rightarrow> 'w \<Rightarrow> node"
  fs_readFile :: "string \<Rightarrow> 'w \<Rightarrow> error + string"

text \<open>
  The calls with an effect on the disk or the network are logged, in the order the
  program makes them; \<open>GitClone\<close> is the only network fetch.
\<close>

datatype event =
    FsRemove string
  | FsEnsureDir string
  | GitClone string string

type_synonym 'w state = "'w \<times> event list"

section \<open>cloneRepo\<close>

text \<open>Lines 19 to 23: the cache directory of a repository URL.\<close>

definition repoHash :: "'w env \<Rightarrow> string \<Rightarrow> string" where
  "repoHash env repoUrl = take 12 (sha256_hex env repoUrl)"

definition tempDir :: "'w env \<Rightarrow> string \<Rightarrow> string" where
  "tempDir env repoUrl = path_join [os_tmpdir env, ''github_tools_'' @ repoHash env repoUrl]"

text \<open>
  Lines 26 to 37. \<open>Some r\<close>: the function has returned (\<open>Inr\<close>) or thrown (\<open>Inl\<close>);
  \<open>None\<close>: control reaches line 39. Both \<^verbatim>\<open>simpleGit(tempDir)\<close> and \<^verbatim>\<open>getRemotes\<close> stand in
  the \<^verbatim>\<open>try\<close> block, so \<open>git_getRemotes\<close> is the pair of them. An error thrown by
  \<^verbatim>\<open>fs.remove\<close> in the \<^verbatim>\<open>catch\<close> block leaves the function.
\<close>

definition reuse_existing ::
  "'w env \<Rightarrow> string \<Rightarrow> string \<Rightarrow> 'w state \<Rightarrow> (error + string) option \<times> 'w state" where
  "reuse_existing env repoUrl dir s =
     (case s of (w, tr) \<Rightarrow>
        if fs_pathExists env dir w then
          (case git_getRemotes env dir w of
             Inr remotes \<Rightarrow>
               (if length remotes > 0 \<and> refs_fetch (hd remotes) = repoUrl
                then (Some (Inr dir), (w, tr))
                else (None, (w, tr)))
           | Inl err \<Rightarrow>
               (case fs_remove env dir w of
                  (None, w') \<Rightarrow> (None, (w', tr @ [FsRemove dir]))
                | (Some e, w') \<Rightarrow> (Some (Inl e), (w', tr @ [FsRemove dir]))))
        else (None, (w, tr)))"

text \<open>Lines 39 to 48.\<close>

definition clone_fresh ::
  "'w env \<Rightarrow> string \<Rightarrow> string \<Rightarrow> 'w state \<Rightarrow> (error + string) \<times> 'w state" where
  "clone_fresh env repoUrl dir s =
     (case s of (w, tr) \<Rightarrow>
        (case fs_ensureDir env dir w of
           (Some e, w1) \<Rightarrow> (Inl e, (w1, tr @ [FsEnsureDir dir]))
         | (None, w1) \<Rightarrow>
             (case git_clone env repoUrl dir w1 of
                (None, w2) \<Rightarrow>
                  (Inr dir, (w2, tr @ [FsEnsureDir dir, GitClone repoUrl dir]))
              | (Some err, w2) \<Rightarrow>
                  (case fs_remove env dir w2 of
                     (Some e, w3) \<Rightarrow>
                       (Inl e, (w3, tr @ [FsEnsureDir dir, GitClone repoUrl dir, FsRemove dir]))
                   | (None, w3) \<Rightarrow>
                       (Inl (''Failed to clone repository: '' @ err),
                        (w3, tr @ [FsEnsureDir dir, GitClone repoUrl dir, FsRemove dir]))))))"

definition cloneRepo :: "'w env \<Rightarrow> string \<Rightarrow> 'w state \<Rightarrow> (error + string) \<times> 'w state" where
  "cloneRepo env repoUrl s =
     (let dir = tempDir env repoUrl in
      case reuse_existing env repoUrl dir s of
        (Some r, s1) \<Rightarrow> (r, s1)
      | (None, s1) \<Rightarrow> clone_fresh env repoUrl dir s1)"

section \<open>getDirectoryTree\<close>

text \<open>
  The three file-system reads of the renderer, on a \<^typ>\<open>node\<close>: \<^verbatim>\<open>fs.readdir(dirPath)\<close>,
  the node at \<^verbatim>\<open>path.join(dirPath, entry)\<close>, and \<^verbatim>\<open>(await fs.stat(entryPath)).isDirectory()\<close>.
\<close>

fun readdir :: "node \<Rightarrow> error + string list" where
  "readdir (Dir es) = Inr (map fst es)"
| "readdir (DirUnreadable e) = Inl e"
| "readdir (StatFails e) = Inl e"
| "readdir File = Inl ''ENOTDIR: not a directory, scandir''"

fun entry_node :: "node \<Rightarrow> string \<Rightarrow> node" where
  "entry_node (Dir es) entry =
     (case map_of es entry of
        Some n \<Rightarrow> n
      | None \<Rightarrow> StatFails ''ENOENT: no such file or directory, stat'')"
| "entry_node d entry = StatFails ''ENOENT: no such file or directory, stat''"

fun stat_isDirectory :: "node \<Rightarrow> error + bool" where
  "stat_isDirectory File = Inr False"
| "stat_isDirectory (Dir es) = Inr True"
| "stat_isDirectory (DirUnreadable e) = Inr True"
| "stat_isDirectory (StatFails e) = Inl e"

text \<open>
  The string literals of lines 62, 63 and 66, as UTF-8 bytes: the terminal connector
  (U+2514 U+2500 U+2500 and a space), the mid-branch connector (U+251C U+2500 U+2500 and a
  space), the blank continuation (four spaces), the pass-through continuation (U+2502 and
  three spaces) and the line feed.
\<close>

definition connector_last :: string where
  "connector_last =
     [CHR 0xE2, CHR 0x94, CHR 0x94, CHR 0xE2, CHR 0x94, CHR 0x80, CHR 0xE2, CHR 0x94, CHR 0x80,
      CHR '' '']"

definition connector_mid :: string where
  "connector_mid =
     [CHR 0xE2, CHR 0x94, CHR 0x9C, CHR 0xE2, CHR 0x94, CHR 0x80, CHR 0xE2, CHR 0x94, CHR 0x80,
      CHR '' '']"

definition continuation_last :: string where
  "continuation_last = ''    ''"

definition continuation_mid :: string where
  "continuation_mid = [CHR 0xE2, CHR 0x94, CHR 0x82, CHR '' '', CHR '' '', CHR '' '']"

definition newline :: string where
  "newline = [CHR 0x0A]"

text \<open>
  Lines 52 to 75. \<open>tree_loop\<close> is the \<^verbatim>\<open>for\<close> loop at index \<open>i\<close> with the text accumulated
  so far; an error thrown by \<^verbatim>\<open>readdir\<close>, by \<^verbatim>\<open>stat\<close> or by the recursive call
  leaves the function.
\<close>

function getDirectoryTree :: "node \<Rightarrow> string \<Rightarrow> error + string"
  and tree_loop :: "node \<Rightarrow> string \<Rightarrow> string list \<Rightarrow> nat \<Rightarrow> string \<Rightarrow> error + string" where
  "getDirectoryTree dir prefix =
     (case readdir dir of
        Inl e \<Rightarrow> Inl e
      | Inr entries \<Rightarrow> tree_loop dir prefix (sort entries) 0 [])"
| "tree_loop dir prefix entries i output =
     (if i < length entries then
        let entry = entries ! i in
        if startsWith entry ''.git'' then tree_loop dir prefix entries (i + 1) output
        else
          let isLast = (i = length entries - 1);
              currentPrefix = (if isLast then connector_last else connector_mid);
              nextPrefix = (if isLast then continuation_last else continuation_mid);
              entryPath = entry_node dir entry;
              output1 = output @ prefix @ currentPrefix @ entry @ newline
          in case stat_isDirectory entryPath of
               Inl e \<Rightarrow> Inl e
             | Inr isDir \<Rightarrow>
                 if isDir then
                   (case getDirectoryTree entryPath (prefix @ nextPrefix) of
                      Inl e \<Rightarrow> Inl e
                    | Inr sub \<Rightarrow> tree_loop dir prefix entries (i + 1) (output1 @ sub))
                 else tree_loop dir prefix entries (i + 1) output1
      else Inr output)"
  by pat_completeness auto
termination
proof -
  have member_smaller: "size c < Suc (size_list (size_prod (\<lambda>_. 0) size) es)"
    if "(entry, c) \<in> set es" for entry :: string and c :: node and es
    using that by (induction es) auto
  have child_smaller: "size (entry_node d entry) < size d"
    if "stat_isDirectory (entry_node d entry) = Inr True" for d entry
  proof (cases d)
    case (Dir es)
    show ?thesis
    proof (cases "map_of es entry")
      case None
      with Dir that show ?thesis by simp
    next
      case (Some c)
      then have "(entry, c) \<in> set es" by (rule map_of_SomeD)
      with Dir Some show ?thesis by (simp add: member_smaller)
    qed
  qed (use that in simp_all)
  show ?thesis
    by (relation "inv_image (less_than <*lex*> less_than <*lex*> less_than)
          (\<lambda>x. case x of
             Inl (d, p) \<Rightarrow> (size d, 1::nat, 0::nat)
           | Inr (d, p, es, i, out) \<Rightarrow> (size d, 0, length es - i))")
       (auto simp: child_smaller)
qed

section \<open>The tool handlers\<close>

text \<open>
  The result object of a handler: the text of its one content block and the \<^verbatim>\<open>isError\<close>
  flag (absent in the source's success results, \<open>False\<close> here). \<open>Json obj\<close> stands for
  the text \<^verbatim>\<open>JSON.stringify(obj, null, 2)\<close> of an object whose values are strings; the
  object is the map from its own keys to their values.
\<close>

datatype payload =
    Plain string
  | Json "string \<rightharpoonup> string"

record response =
  content_block :: payload
  isError :: bool

text \<open>Lines 155 to 178.\<close>

definition handleGitDirectoryStructure ::
  "'w env \<Rightarrow> string \<Rightarrow> 'w state \<Rightarrow> response \<times> 'w state" where
  "handleGitDirectoryStructure env repo_url s =
     (case cloneRepo env repo_url s of
        (Inl msg, s1) \<Rightarrow> (\<lparr>content_block = Plain (''Error: '' @ msg), isError = True\<rparr>, s1)
      | (Inr repoPath, s1) \<Rightarrow>
          (case getDirectoryTree (fs_node env repoPath (fst s1)) [] of
             Inl msg \<Rightarrow> (\<lparr>content_block = Plain (''Error: '' @ msg), isError = True\<rparr>, s1)
           | Inr tree \<Rightarrow> (\<lparr>content_block = Plain tree, isError = False\<rparr>, s1)))"

text \<open>
  Line 186: the path a requested file is read at.
\<close>

definition fullPath :: "string \<Rightarrow> string \<Rightarrow> string" where
  "fullPath repoPath filePath = path_join [repoPath, filePath]"

text \<open>
  Lines 187 to 195: the value stored for one requested path. \<^verbatim>\<open>fs.pathExists\<close> never
  throws, so the \<^verbatim>\<open>catch\<close> block is reached from \<^verbatim>\<open>fs.readFile\<close> alone.
\<close>

definition read_entry :: "'w env \<Rightarrow> string \<Rightarrow> string \<Rightarrow> 'w \<Rightarrow> string" where
  "read_entry env repoPath filePath w =
     (if fs_pathExists env (fullPath repoPath filePath) w then
        (case fs_readFile env (fullPath repoPath filePath) w of
           Inr content \<Rightarrow> content
         | Inl msg \<Rightarrow> ''Error reading file: '' @ msg)
      else ''Error: File not found'')"

text \<open>
  \<^verbatim>\<open>results[filePath] = value\<close> on the object literal \<^verbatim>\<open>{}\<close>, whose prototype is
  \<^verbatim>\<open>Object.prototype\<close>. The one accessor property of that prototype is \<^verbatim>\<open>__proto__\<close>: the
  assignment calls its setter, which returns without effect for a value that is
  neither an object nor null, and \<open>value\<close> is a string here. Every other key becomes (or
  overwrites) an own property. The object is a map from its own keys to their values.
\<close>

definition set_property :: "(string \<rightharpoonup> string) \<Rightarrow> string \<Rightarrow> string \<Rightarrow> (string \<rightharpoonup> string)" where
  "set_property obj key v = (if key = ''__proto__'' then obj else obj(key \<mapsto> v))"

text \<open>
  The argument \<^verbatim>\<open>file_paths\<close> as the handler receives it. The server does not check the
  arguments of a call against the input schema, so the value need not be an array of
  strings. An element is a string, or some other value, given by the message of the
  \<^verbatim>\<open>TypeError\<close> that \<^verbatim>\<open>path.join\<close> throws for it. The argument is a sequence of elements
  (what the \<^verbatim>\<open>for\<close>-\<^verbatim>\<open>of\<close> header iterates over), or a value that is not iterable, given by
  the message of the \<^verbatim>\<open>TypeError\<close> that the header throws.
\<close>

datatype js_value =
    JString string
  | NotString error

datatype js_argument =
    JArray "js_value list"
  | NotIterable error

text \<open>
  Lines 185 to 196: the loop over the elements of \<^verbatim>\<open>file_paths\<close>, from the results so
  far. \<^verbatim>\<open>path.join\<close> of line 186 stands outside the inner \<^verbatim>\<open>try\<close>: what it throws for an
  element that is not a string leaves the loop, and the results so far are lost.
\<close>

fun read_values ::
  "'w env \<Rightarrow> string \<Rightarrow> js_value list \<Rightarrow> 'w \<Rightarrow> (string \<rightharpoonup> string) \<Rightarrow>
   error + (string \<rightharpoonup> string)" where
  "read_values env repoPath [] w results = Inr results"
| "read_values env repoPath (JString filePath # rest) w results =
     read_values env repoPath rest w
       (set_property results filePath (read_entry env repoPath filePath w))"
| "read_values env repoPath (NotString msg # rest) w results = Inl msg"

text \<open>Lines 183 to 196: \<^verbatim>\<open>const results = {}\<close> and the \<^verbatim>\<open>for\<close>-\<^verbatim>\<open>of\<close> statement.\<close>

definition read_request ::
  "'w env \<Rightarrow> string \<Rightarrow> js_argument \<Rightarrow> 'w \<Rightarrow> error + (string \<rightharpoonup> string)" where
  "read_request env repoPath file_paths w =
     (case file_paths of
        NotIterable msg \<Rightarrow> Inl msg
      | JArray elements \<Rightarrow> read_values env repoPath elements w Map.empty)"

text \<open>
  The same loop on a request whose elements are all strings, where nothing is thrown:
  \<open>read_files\<close> is the loop from the results so far, \<open>readAll\<close> the mapping it builds from
  the empty object.
\<close>

fun read_files ::
  "'w env \<Rightarrow> string \<Rightarrow> string list \<Rightarrow> 'w \<Rightarrow> (string \<rightharpoonup> string) \<Rightarrow> (string \<rightharpoonup> string)" where
  "read_files env repoPath [] w results = results"
| "read_files env repoPath (filePath # rest) w results =
     read_files env repoPath rest w
       (set_property results filePath (read_entry env repoPath filePath w))"

definition readAll :: "'w env \<Rightarrow> string \<Rightarrow> string list \<Rightarrow> 'w \<Rightarrow> (string \<rightharpoonup> string)" where
  "readAll env repoPath file_paths w = read_files env repoPath file_paths w Map.empty"

text \<open>
  Lines 180 to 217. The outer \<^verbatim>\<open>catch\<close> takes whatever \<open>cloneRepo\<close>, the \<^verbatim>\<open>for\<close>-\<^verbatim>\<open>of\<close> header
  or \<^verbatim>\<open>path.join\<close> throws.
\<close>

definition handleGitReadImportantFiles ::
  "'w env \<Rightarrow> string \<Rightarrow> js_argument \<Rightarrow> 'w state \<Rightarrow> response \<times> 'w state" where
  "handleGitReadImportantFiles env repo_url file_paths s =
     (case cloneRepo env repo_url s of
        (Inl msg, s1) \<Rightarrow>
          (\<lparr>content_block = Json [''error'' \<mapsto> ''Failed to process repository: '' @ msg],
            isError = True\<rparr>, s1)
      | (Inr repoPath, s1) \<Rightarrow>
          (case read_request env repoPath file_paths (fst s1) of
             Inl msg \<Rightarrow>
               (\<lparr>content_block = Json [''error'' \<mapsto> ''Failed to process repository: '' @ msg],
                 isError = True\<rparr>, s1)
           | Inr results \<Rightarrow> (\<lparr>content_block = Json results, isError = False\<rparr>, s1)))"

section \<open>Notions of the specification\<close>

text \<open>
  The definitions of this section are not part of the program. They follow the words of
  the specification, or read the log and the listing, so that the theorems below can
  compare the code with them.
\<close>

subsection \<open>CacheProbe\<close>

text \<open>
  The three probe outcomes of the specification: \<open>Absent\<close> when the path does not exist,
  \<open>Reusable\<close> when it exists, is a working copy and its first remote's fetch URL is the
  repository URL, \<open>Invalid\<close> otherwise (inspection fails, no remote, or another URL).
\<close>

datatype probe = Absent | Invalid | Reusable

definition cacheProbe :: "'w env \<Rightarrow> string \<Rightarrow> 'w \<Rightarrow> probe" where
  "cacheProbe env repoUrl w =
     (if \<not> fs_pathExists env (tempDir env repoUrl) w then Absent
      else case git_getRemotes env (tempDir env repoUrl) w of
             Inl e \<Rightarrow> Invalid
           | Inr remotes \<Rightarrow>
               (case remotes of
                  [] \<Rightarrow> Invalid
                | r # rs \<Rightarrow> if refs_fetch r = repoUrl then Reusable else Invalid))"

text \<open>Reading the log: the network fetches, and the path each call works on.\<close>

fun is_fetch :: "event \<Rightarrow> bool" where
  "is_fetch (GitClone url dir) = True"
| "is_fetch (FsRemove dir) = False"
| "is_fetch (FsEnsureDir dir) = False"

definition fetches :: "event list \<Rightarrow> nat" where
  "fetches tr = length (filter is_fetch tr)"

fun event_path :: "event \<Rightarrow> string" where
  "event_path (GitClone url dir) = dir"
| "event_path (FsRemove dir) = dir"
| "event_path (FsEnsureDir dir) = dir"


text \<open>The hexadecimal form of a 256-bit digest: 64 lower-case hexadecimal digits.\<close>

definition hex_digest :: "string \<Rightarrow> bool" where
  "hex_digest h = (length h = 64 \<and> set h \<subseteq> set ''0123456789abcdef'')"

subsection \<open>Well-formed requests\<close>

text \<open>The argument the input schema of the tool declares: an array of strings.\<close>

fun is_string :: "js_value \<Rightarrow> bool" where
  "is_string (JString s) = True"
| "is_string (NotString msg) = False"

fun strings_only :: "js_argument \<Rightarrow> bool" where
  "strings_only (JArray elements) = list_all is_string elements"
| "strings_only (NotIterable msg) = False"

subsection \<open>Paths\<close>

text \<open>
  The segments of a requested path that name something: neither empty nor \<^verbatim>\<open>.\<close>. A root
  is clean when it is already normalised, is not the current directory and has no
  trailing separator, as \<^verbatim>\<open>/tmp/github_tools_0123456789ab\<close> is.
\<close>

definition proper_segments :: "string \<Rightarrow> string list" where
  "proper_segments p = filter (\<lambda>s. s \<noteq> [] \<and> s \<noteq> ''.'') (split_slash p)"

definition clean_root :: "string \<Rightarrow> bool" where
  "clean_root root = (path_normalize root = root \<and> root \<noteq> ''.'' \<and> \<not> trailingSeparator root)"

subsection \<open>The listing of a directory\<close>

text \<open>
  The tree of entries the specification's renderer lists: a name, whether the entry
  stands at the last position of its directory's sorted listing, and the listing of the
  entry itself. \<open>draw\<close> is the conventional drawing of such a tree, depth first: the line
  of an entry, then the lines of its children behind the continuation prefix, then the
  entries after it.
\<close>

datatype listing =
  Entry (entry_name: string) (entry_last: bool) (entry_children: "listing list")

fun draw :: "string \<Rightarrow> listing list \<Rightarrow> string" where
  "draw prefix [] = []"
| "draw prefix (Entry name lst children # rest) =
     prefix @ (if lst then connector_last else connector_mid) @ name @ newline @
     draw (prefix @ (if lst then continuation_last else continuation_mid)) children @
     draw prefix rest"

definition last_flags :: "nat \<Rightarrow> bool list" where
  "last_flags n = map (\<lambda>i. i = n - 1) [0..<n]"

text \<open>
  The entries of one level: the names in lexicographic order, each with its position
  flag, without those that begin with the metadata prefix.
\<close>

definition listed :: "string list \<Rightarrow> (string \<times> bool) list" where
  "listed entries =
     filter (\<lambda>(name, lst). \<not> startsWith name ''.git'')
       (zip (sort entries) (last_flags (length entries)))"

function listing_of :: "node \<Rightarrow> listing list" where
  "listing_of d =
     (case readdir d of
        Inl e \<Rightarrow> []
      | Inr entries \<Rightarrow>
          map (\<lambda>(name, lst). Entry name lst (listing_of (entry_node d name))) (listed entries))"
  by pat_completeness auto
termination
proof (relation "measure size")
  show "wf (measure size)" by simp
next
  fix d :: node and entries x name lst
  assume rd: "readdir d = Inr entries" and x: "x \<in> set (listed entries)" and nx: "(name, lst) = x"
  from rd obtain es where d: "d = Dir es" and entries: "entries = map fst es"
    by (cases d) auto
  from x nx have "name \<in> set (sort entries)"
    by (auto simp: listed_def dest: set_zip_leftD)
  then have "name \<in> fst ` set es" using entries by simp
  then obtain c where c: "map_of es name = Some c"
    by (metis domD dom_map_of_conv_image_fst)
  then have "(name, c) \<in> set es" by (rule map_of_SomeD)
  then have "size c < Suc (size_list (size_prod (\<lambda>_. 0) size) es)"
    by (induction es) auto
  with c d show "(entry_node d name, d) \<in> measure size" by simp
qed

text \<open>Every level of a listing is sorted by name; no name begins with the prefix.\<close>

function levels_sorted :: "listing list \<Rightarrow> bool" where
  "levels_sorted ls =
     (sorted (map entry_name ls) \<and> (\<forall>l \<in> set ls. levels_sorted (entry_children l)))"
  by pat_completeness auto
termination
proof (relation "measure (size_list size)")
  show "wf (measure (size_list size))" by simp
next
  fix ls :: "listing list" and x
  assume "x \<in> set ls"
  then have "size x \<le> size_list size ls"
    by (induction ls) auto
  moreover have "size_list size (entry_children x) < size x"
    by (cases x) simp
  ultimately show "(entry_children x, ls) \<in> measure (size_list size)" by simp
qed

function no_metadata :: "listing list \<Rightarrow> bool" where
  "no_metadata ls =
     (\<forall>l \<in> set ls. \<not> startsWith (entry_name l) ''.git'' \<and> no_metadata (entry_children l))"
  by pat_completeness auto
termination
proof (relation "measure (size_list size)")
  show "wf (measure (size_list size))" by simp
next
  fix ls :: "listing list" and x
  assume "x \<in> set ls"
  then have "size x \<le> size_list size ls"
    by (induction ls) auto
  moreover have "size_list size (entry_children x) < size x"
    by (cases x) simp
  ultimately show "(entry_children x, ls) \<in> measure (size_list size)" by simp
qed

text \<open>A directory tree in which every directory can be listed and every entry examined.\<close>

fun readable :: "node \<Rightarrow> bool" where
  "readable File = True"
| "readable (Dir es) = (\<forall>x \<in> set es. readable (snd x))"
| "readable (DirUnreadable e) = False"
| "readable (StatFails e) = False"

text \<open>
  Two nodes show the same directory state to the renderer when they are equal, or are
  directories with the same names, in any order, whose entries that are not skipped
  show the same state in turn. What lies under a name that begins with the prefix is
  left open.
\<close>

inductive same_state :: "node \<Rightarrow> node \<Rightarrow> bool" where
  same_node: "same_state d d"
| same_dir:
    "mset (map fst es) = mset (map fst es') \<Longrightarrow>
     (\<And>name c. \<not> startsWith name ''.git'' \<Longrightarrow> map_of es name = Some c \<Longrightarrow>
        \<exists>c'. map_of es' name = Some c' \<and> same_state c c') \<Longrightarrow>
     same_state (Dir es) (Dir es')"

text \<open>The listing of the entries from position \<open>i\<close> of a sorted name list on.\<close>

definition rows_from :: "node \<Rightarrow> string list \<Rightarrow> nat \<Rightarrow> listing list" where
  "rows_from d ents i =
     map (\<lambda>(name, lst). Entry name lst (listing_of (entry_node d name)))
       (filter (\<lambda>(name, lst). \<not> startsWith name ''.git'')
          (drop i (zip ents (last_flags (length ents)))))"

section \<open>An example environment\<close>

text \<open>
  A small world for the examples: each path holds nothing, an empty directory, a
  directory that is no working copy, a working copy with its remotes, a text file or
  a file that may not be read. \<open>git_clone\<close>
  refuses a destination that exists and is not empty, then fails for a URL outside
  \<open>reachable\<close>, and otherwise leaves a working copy whose origin is the URL.
  \<open>example_digest\<close> stands in for the digest: it is not SHA-256, only some function
  into 64 hexadecimal digits.
\<close>

datatype example_item =
    EmptyDir
  | PlainDir
  | WorkingCopy "remote list"
  | TextFile string
  | LockedFile

definition origin :: "string \<Rightarrow> remote" where
  "origin url = \<lparr>remote_name = ''origin'', refs_fetch = url, refs_push = url\<rparr>"

definition hex_byte :: "char \<Rightarrow> string" where
  "hex_byte c =
     [''0123456789abcdef'' ! (of_char c div 16), ''0123456789abcdef'' ! (of_char c mod 16)]"

definition example_digest :: "string \<Rightarrow> string" where
  "example_digest s = take 64 (concat (map hex_byte (rev s)) @ replicate 64 CHR ''0'')"

definition example_env :: "string list \<Rightarrow> (string \<rightharpoonup> example_item) env" where
  "example_env reachable =
     \<lparr>os_tmpdir = ''/tmp'',
      sha256_hex = example_digest,
      fs_pathExists = (\<lambda>p w. w p \<noteq> None),
      git_getRemotes = (\<lambda>p w.
        case w p of
          Some (WorkingCopy remotes) \<Rightarrow> Inr remotes
        | _ \<Rightarrow> Inl ''fatal: not a git repository''),
      fs_remove = (\<lambda>p w. (None, w(p := None))),
      fs_ensureDir = (\<lambda>p w. (None, if w p = None then w(p \<mapsto> EmptyDir) else w)),
      git_clone = (\<lambda>url p w.
        if w p \<noteq> None \<and> w p \<noteq> Some EmptyDir
        then (Some ''fatal: destination path already exists and is not an empty directory'', w)
        else if url \<in> set reachable then (None, w(p \<mapsto> WorkingCopy [origin url]))
        else (Some ''fatal: repository not found'', w)),
      fs_node = (\<lambda>p w.
        case w p of
          None \<Rightarrow> StatFails ''ENOENT: no such file or directory, stat''
        | Some (TextFile data) \<Rightarrow> File
        | Some LockedFile \<Rightarrow> File
        | Some d \<Rightarrow> Dir []),
      fs_readFile = (\<lambda>p w.
        case w p of
          None \<Rightarrow> Inl ''ENOENT: no such file or directory, open''
        | Some (TextFile data) \<Rightarrow> Inr data
        | Some LockedFile \<Rightarrow> Inl ''EACCES: permission denied, open''
        | Some d \<Rightarrow> Inl ''EISDIR: illegal operation on a directory, read'')\<rparr>"



definition example_url :: string where
  "example_url = ''https://example.com/r.git''"

definition example_dir_path :: string where
  "example_dir_path = ''/tmp/github_tools_7469672e722f''"



text \<open>
  The messages of the \<^verbatim>\<open>TypeError\<close> of Node for \<^verbatim>\<open>path.join(repoPath, undefined)\<close> and for
  \<^verbatim>\<open>for (const filePath of undefined)\<close>.
\<close>

definition path_type_error :: error where
  "path_type_error =
     ''The '' @ [CHR 0x22] @ ''path'' @ [CHR 0x22] @
     '' argument must be of type string. Received undefined''"

definition not_iterable_error :: error where
  "not_iterable_error = ''file_paths is not iterable''"

text \<open>A cache directory that can be reused, with a text file and a locked file in it.\<close>

definition example_files :: "string \<rightharpoonup> example_item" where
  "example_files =
     [example_dir_path \<mapsto> WorkingCopy [origin example_url],
      ''/tmp/github_tools_7469672e722f/a.txt'' \<mapsto> TextFile ''hello'',
      ''/tmp/github_tools_7469672e722f/locked.txt'' \<mapsto> LockedFile]"

text \<open>Two listings of one directory state, and the text both render to.\<close>

definition example_tree :: node where
  "example_tree =
     Dir [(''src'', Dir [(''b.js'', File), (''a.js'', File)]),
          (''.git'', DirUnreadable ''EACCES''),
          (''README.md'', File)]"

definition example_tree_reordered :: node where
  "example_tree_reordered =
     Dir [(''README.md'', File),
          (''.git'', Dir [(''HEAD'', File)]),
          (''src'', Dir [(''a.js'', File), (''b.js'', File)])]"

definition example_text :: string where
  "example_text =
     connector_mid @ ''README.md'' @ newline @
     connector_last @ ''src'' @ newline @
     continuation_last @ connector_mid @ ''a.js'' @ newline @
     continuation_last @ connector_last @ ''b.js'' @ newline"

section \<open>Lemmas\<close>

subsection \<open>Paths\<close>

text \<open>
  Splitting and normalising distribute over a separator: the segments of a joined string
  are those of its parts, and normalising them continues from the stack the first part
  left.
\<close>

lemma split_slash_not_Nil: "split_slash s \<noteq> []"
  by (induction s) (auto split: list.splits)

lemma split_slash_append:
  "split_slash (a @ CHR ''/'' # b) = split_slash a @ split_slash b"
  by (induction a) (auto split: list.splits simp: split_slash_not_Nil)

lemma normalize_segments_append:
  "normalize_segments a st (xs @ ys) = normalize_segments a (normalize_segments a st xs) ys"
  by (induction xs arbitrary: st) auto

text \<open>Without a parent-directory segment the stack only grows.\<close>

lemma normalize_segments_no_dotdot:
  "''..'' \<notin> set ys \<Longrightarrow>
   normalize_segments a st ys = st @ filter (\<lambda>s. s \<noteq> [] \<and> s \<noteq> ''.'') ys"
  by (induction ys arbitrary: st) auto

lemma normalize_segments_nonempty:
  "[] \<notin> set st \<Longrightarrow> [] \<notin> set (normalize_segments a st xs)"
proof (induction xs arbitrary: st)
  case Nil
  then show ?case by simp
next
  case (Cons x xs)
  have b: "[] \<notin> set (butlast st)"
    using Cons.prems by (meson in_set_butlastD)
  have c: "[] \<notin> set (st @ [''..''])" "x \<noteq> [] \<Longrightarrow> [] \<notin> set (st @ [x])"
    using Cons.prems by auto
  show ?case
    using Cons.IH[OF b] Cons.IH[OF c(1)] Cons.IH[OF c(2)] Cons.IH[OF Cons.prems]
    by (cases a; cases "st = []") auto
qed

lemma join_slash_Cons: "join_slash (x # xs) = x @ concat (map (\<lambda>s. CHR ''/'' # s) xs)"
  by (induction xs arbitrary: x) auto

lemma join_slash_append:
  "xs \<noteq> [] \<Longrightarrow> join_slash (xs @ ys) = join_slash xs @ concat (map (\<lambda>s. CHR ''/'' # s) ys)"
  by (cases xs) (simp_all add: join_slash_Cons)

lemma join_slash_eq_Nil: "join_slash xs = [] \<longleftrightarrow> xs = [] \<or> xs = [[]]"
  by (cases xs) (auto simp: join_slash_Cons)


text \<open>
  A clean root is its own normal form: the separator, if absolute, and its segments
  joined.
\<close>

lemma clean_root_shape:
  assumes "clean_root root"
  shows "root \<noteq> []" and "path_segments root \<noteq> []"
    and "root = (if isAbsolute root then ''/'' else []) @ join_slash (path_segments root)"
proof -
  from assms have n: "path_normalize root = root" and d: "root \<noteq> ''.''"
    and t: "\<not> trailingSeparator root"
    by (simp_all add: clean_root_def)
  show ne: "root \<noteq> []"
    using n by (auto simp: path_normalize_def)
  have j: "join_slash (path_segments root) \<noteq> []"
  proof
    assume "join_slash (path_segments root) = []"
    with n ne have "root = ''/'' \<or> root = ''./'' \<or> root = ''.''"
      by (auto simp: path_normalize_def split: if_splits)
    with d t show False by (auto simp: trailingSeparator_def)
  qed
  then show "path_segments root \<noteq> []" by auto
  from n ne j t show "root = (if isAbsolute root then ''/'' else []) @ join_slash (path_segments root)"
    by (simp add: path_normalize_def Let_def split: if_splits)
qed

text \<open>
  The resolved path under a clean root, for a requested path without parent-directory
  segments; and the leading separator that changes nothing.
\<close>

lemma fullPath_beneath:
  assumes root: "clean_root root" and nodd: "''..'' \<notin> set (split_slash p)"
  shows "fullPath root p =
         root @ concat (map (\<lambda>s. CHR ''/'' # s) (proper_segments p)) @
         (if trailingSeparator p then ''/'' else [])"
proof (cases "p = []")
  case True
  with root show ?thesis
    by (simp add: fullPath_def path_join_def clean_root_shape(1) clean_root_def
        proper_segments_def trailingSeparator_def)
next
  case False
  note shape = clean_root_shape[OF root]
  define J where "J = root @ CHR ''/'' # p"
  have fp: "fullPath root p = path_normalize J"
    using False shape(1) by (simp add: fullPath_def path_join_def J_def)
  have Jne: "J \<noteq> []"
    by (simp add: J_def)
  have abs: "isAbsolute J = isAbsolute root"
    using shape(1) by (cases root) (simp_all add: isAbsolute_def J_def)
  have tr: "trailingSeparator J = trailingSeparator p"
    using False by (simp add: trailingSeparator_def J_def)
  have segs: "path_segments J = path_segments root @ proper_segments p"
    unfolding path_segments_def abs unfolding J_def
    by (simp add: split_slash_append normalize_segments_append
        normalize_segments_no_dotdot[OF nodd] proper_segments_def)
  have js: "join_slash (path_segments J) =
      join_slash (path_segments root) @ concat (map (\<lambda>s. CHR ''/'' # s) (proper_segments p))"
    unfolding segs using shape(2) by (rule join_slash_append)
  have "[] \<notin> set (path_segments root)"
    unfolding path_segments_def by (rule normalize_segments_nonempty) simp
  with shape(2) have "join_slash (path_segments root) \<noteq> []"
    by (auto simp: join_slash_eq_Nil)
  then have ne: "join_slash (path_segments J) \<noteq> []"
    using js by simp
  have "path_normalize J =
      (if isAbsolute root then ''/'' else []) @ join_slash (path_segments J) @
      (if trailingSeparator p then ''/'' else [])"
    using ne Jne by (simp add: path_normalize_def Let_def abs tr)
  also have "\<dots> = root @ concat (map (\<lambda>s. CHR ''/'' # s) (proper_segments p)) @
         (if trailingSeparator p then ''/'' else [])"
    unfolding js using shape(3) by (metis append.assoc)
  finally show ?thesis using fp by simp
qed

lemma fullPath_leading_slash:
  assumes "root \<noteq> []" and "p \<noteq> []"
  shows "fullPath root (CHR ''/'' # p) = fullPath root p"
proof -
  have abs: "isAbsolute (root @ CHR ''/'' # CHR ''/'' # p) = isAbsolute (root @ CHR ''/'' # p)"
    using assms(1) by (cases root) (simp_all add: isAbsolute_def)
  have tr: "trailingSeparator (root @ CHR ''/'' # CHR ''/'' # p) = trailingSeparator (root @ CHR ''/'' # p)"
    using assms(2) by (simp add: trailingSeparator_def)
  have "split_slash (root @ CHR ''/'' # CHR ''/'' # p) = split_slash root @ [] # split_slash p"
    by (simp add: split_slash_append)
  then have segs: "path_segments (root @ CHR ''/'' # CHR ''/'' # p) = path_segments (root @ CHR ''/'' # p)"
    unfolding path_segments_def abs
    by (simp add: split_slash_append normalize_segments_append)
  show ?thesis
    using assms by (simp add: fullPath_def path_join_def path_normalize_def segs abs tr)
qed

subsection \<open>The renderer\<close>

declare tree_loop.simps [simp del]
declare getDirectoryTree.simps [simp del]
declare listing_of.simps [simp del]
declare levels_sorted.simps [simp del]
declare no_metadata.simps [simp del]

text \<open>The node of an entry that is a directory is smaller than the directory.\<close>

lemma child_smaller:
  assumes "stat_isDirectory (entry_node d entry) = Inr True"
  shows "size (entry_node d entry) < size d"
proof (cases d)
  case (Dir es)
  show ?thesis
  proof (cases "map_of es entry")
    case None
    with Dir assms show ?thesis by simp
  next
    case (Some c)
    then have "(entry, c) \<in> set es" by (rule map_of_SomeD)
    then have "size c < Suc (size_list (size_prod (\<lambda>_. 0) size) es)"
      by (induction es) auto
    with Dir Some show ?thesis by simp
  qed
qed (use assms in simp_all)

lemma last_flags_nth: "i < n \<Longrightarrow> last_flags n ! i = (i = n - 1)"
  by (simp add: last_flags_def)

lemma length_last_flags: "length (last_flags n) = n"
  by (simp add: last_flags_def)

lemma drop_zip_flags:
  assumes "i < length ents"
  shows "drop i (zip ents (last_flags (length ents))) =
         (ents ! i, i = length ents - 1) # drop (Suc i) (zip ents (last_flags (length ents)))"
proof -
  have "i < length (zip ents (last_flags (length ents)))"
    using assms by (simp add: length_last_flags)
  then have "drop i (zip ents (last_flags (length ents))) =
      zip ents (last_flags (length ents)) ! i # drop (Suc i) (zip ents (last_flags (length ents)))"
    by (rule Cons_nth_drop_Suc[symmetric])
  then show ?thesis
    using assms by (simp add: length_last_flags last_flags_nth)
qed

lemma rows_from_end: "length ents \<le> i \<Longrightarrow> rows_from d ents i = []"
  by (simp add: rows_from_def)

lemma rows_from_step:
  assumes "i < length ents"
  shows "rows_from d ents i =
     (if startsWith (ents ! i) ''.git'' then rows_from d ents (Suc i)
      else Entry (ents ! i) (i = length ents - 1) (listing_of (entry_node d (ents ! i)))
           # rows_from d ents (Suc i))"
  unfolding rows_from_def drop_zip_flags[OF assms] by simp

lemma listing_of_rows: "readdir d = Inr entries \<Longrightarrow> listing_of d = rows_from d (sort entries) 0"
  by (simp add: listing_of.simps[of d] rows_from_def listed_def)

lemma listing_of_not_directory:
  "stat_isDirectory n = Inr False \<Longrightarrow> listing_of n = []"
  by (cases n) (simp_all add: listing_of.simps)

text \<open>
  The loop invariant: from index \<open>i\<close> on, the loop appends the drawing of the rows that
  are left, provided the renders of the subdirectories are drawings of their listings.
\<close>

lemma tree_loop_rows:
  assumes sub: "\<And>name p' out. name \<in> set ents \<Longrightarrow>
      stat_isDirectory (entry_node d name) = Inr True \<Longrightarrow>
      getDirectoryTree (entry_node d name) p' = Inr out \<Longrightarrow>
      out = draw p' (listing_of (entry_node d name))"
    and run: "tree_loop d p ents i acc = Inr res"
  shows "res = acc @ draw p (rows_from d ents i)"
  using run
proof (induction "length ents - i" arbitrary: i acc)
  case 0
  then have "length ents \<le> i" by simp
  with 0 show ?case
    by (simp add: tree_loop.simps[of d p ents i acc] rows_from_end)
next
  case (Suc k)
  then have lt: "i < length ents" and k: "k = length ents - (i + 1)" by simp_all
  let ?e = "ents ! i"
  have mem: "?e \<in> set ents" using lt by simp
  show ?case
  proof (cases "startsWith ?e ''.git''")
    case True
    with Suc.prems lt have "tree_loop d p ents (i + 1) acc = Inr res"
      by (simp add: tree_loop.simps[of d p ents i acc])
    from Suc.hyps(1)[OF k this] True lt show ?thesis
      by (simp add: rows_from_step)
  next
    case False
    let ?last = "i = length ents - 1"
    let ?line = "p @ (if ?last then connector_last else connector_mid) @ ?e @ newline"
    let ?next = "p @ (if ?last then continuation_last else continuation_mid)"
    show ?thesis
    proof (cases "stat_isDirectory (entry_node d ?e)")
      case (Inl e)
      with Suc.prems lt False show ?thesis
        by (simp add: tree_loop.simps[of d p ents i acc] Let_def)
    next
      case (Inr isDir)
      show ?thesis
      proof (cases isDir)
        case True
        with Inr have st: "stat_isDirectory (entry_node d ?e) = Inr True" by simp
        show ?thesis
        proof (cases "getDirectoryTree (entry_node d ?e) ?next")
          case (Inl e)
          with Suc.prems lt False st show ?thesis
            by (simp add: tree_loop.simps[of d p ents i acc] Let_def)
        next
          case (Inr subtree)
          with Suc.prems lt False st
          have "tree_loop d p ents (i + 1) ((acc @ ?line) @ subtree) = Inr res"
            by (simp add: tree_loop.simps[of d p ents i acc] Let_def)
          from Suc.hyps(1)[OF k this]
          have "res = ((acc @ ?line) @ subtree) @ draw p (rows_from d ents (Suc i))"
            by simp
          moreover have "subtree = draw ?next (listing_of (entry_node d ?e))"
            using sub[OF mem st Inr] .
          ultimately show ?thesis
            using False lt by (simp add: rows_from_step)
        qed
      next
        case False2: False
        with Inr have st: "stat_isDirectory (entry_node d ?e) = Inr False" by simp
        with Suc.prems lt False
        have "tree_loop d p ents (i + 1) (acc @ ?line) = Inr res"
          by (simp add: tree_loop.simps[of d p ents i acc] Let_def)
        from Suc.hyps(1)[OF k this]
        have "res = (acc @ ?line) @ draw p (rows_from d ents (Suc i))"
          by simp
        then show ?thesis
          using False lt by (simp add: rows_from_step listing_of_not_directory[OF st])
      qed
    qed
  qed
qed

lemma getDirectoryTree_draw:
  "getDirectoryTree d p = Inr out \<Longrightarrow> out = draw p (listing_of d)"
proof (induction d arbitrary: p out rule: measure_induct_rule[of size])
  case (less d)
  from less.prems obtain entries where rd: "readdir d = Inr entries"
    and run: "tree_loop d p (sort entries) 0 [] = Inr out"
    by (cases "readdir d") (simp_all add: getDirectoryTree.simps[of d p])
  have "out = [] @ draw p (rows_from d (sort entries) 0)"
  proof (rule tree_loop_rows[OF _ run])
    fix name p' out'
    assume "stat_isDirectory (entry_node d name) = Inr True"
      and "getDirectoryTree (entry_node d name) p' = Inr out'"
    then show "out' = draw p' (listing_of (entry_node d name))"
      using less.IH[OF child_smaller] by blast
  qed
  then show ?case by (simp add: listing_of_rows[OF rd])
qed


text \<open>
  The loop returns when every entry that is not skipped is a file or a directory that
  renders.
\<close>

lemma tree_loop_succeeds:
  assumes sub: "\<And>name. name \<in> set ents \<Longrightarrow> \<not> startsWith name ''.git'' \<Longrightarrow>
      stat_isDirectory (entry_node d name) = Inr False \<or>
      (stat_isDirectory (entry_node d name) = Inr True \<and>
       (\<forall>p'. \<exists>out. getDirectoryTree (entry_node d name) p' = Inr out))"
  shows "\<exists>res. tree_loop d p ents i acc = Inr res"
proof (induction "length ents - i" arbitrary: i acc)
  case 0
  then show ?case by (simp add: tree_loop.simps[of d p ents i acc])
next
  case (Suc k)
  then have lt: "i < length ents" and k: "k = length ents - (i + 1)" by simp_all
  let ?e = "ents ! i"
  have mem: "?e \<in> set ents" using lt by simp
  show ?case
  proof (cases "startsWith ?e ''.git''")
    case True
    with Suc.hyps(1)[OF k, of acc] lt show ?thesis
      by (simp add: tree_loop.simps[of d p ents i acc])
  next
    case False
    let ?last = "i = length ents - 1"
    let ?line = "p @ (if ?last then connector_last else connector_mid) @ ?e @ newline"
    let ?next = "p @ (if ?last then continuation_last else continuation_mid)"
    from sub[OF mem False] show ?thesis
    proof
      assume st: "stat_isDirectory (entry_node d ?e) = Inr False"
      with Suc.hyps(1)[OF k, of "acc @ ?line"] lt False show ?thesis
        by (simp add: tree_loop.simps[of d p ents i acc] Let_def)
    next
      assume "stat_isDirectory (entry_node d ?e) = Inr True \<and>
        (\<forall>p'. \<exists>out. getDirectoryTree (entry_node d ?e) p' = Inr out)"
      then obtain subtree where st: "stat_isDirectory (entry_node d ?e) = Inr True"
        and subtree: "getDirectoryTree (entry_node d ?e) ?next = Inr subtree"
        by blast
      with Suc.hyps(1)[OF k, of "(acc @ ?line) @ subtree"] lt False show ?thesis
        by (simp add: tree_loop.simps[of d p ents i acc] Let_def)
    qed
  qed
qed

lemma readable_renders:
  "readable (Dir es) \<Longrightarrow> \<exists>out. getDirectoryTree (Dir es) p = Inr out"
proof (induction "Dir es" arbitrary: es p rule: measure_induct_rule[of size])
  case less
  have "\<exists>res. tree_loop (Dir es) p (sort (map fst es)) 0 [] = Inr res"
  proof (rule tree_loop_succeeds)
    fix name
    assume "name \<in> set (sort (map fst es))"
    then have "name \<in> fst ` set es" by simp
    then obtain c where c: "map_of es name = Some c"
      by (metis domD dom_map_of_conv_image_fst)
    then have mem: "(name, c) \<in> set es" by (rule map_of_SomeD)
    with less.prems have rc: "readable c" by auto
    show "stat_isDirectory (entry_node (Dir es) name) = Inr False \<or>
      (stat_isDirectory (entry_node (Dir es) name) = Inr True \<and>
       (\<forall>p'. \<exists>out. getDirectoryTree (entry_node (Dir es) name) p' = Inr out))"
    proof (cases c)
      case File
      with c show ?thesis by simp
    next
      case (Dir cs)
      with c have st: "stat_isDirectory (entry_node (Dir es) name) = Inr True" by simp
      from child_smaller[OF st] c Dir have "size (Dir cs) < size (Dir es)" by simp
      from less.hyps[OF this] rc Dir
      have "\<forall>p'. \<exists>out. getDirectoryTree (Dir cs) p' = Inr out" by simp
      with c Dir show ?thesis by simp
    qed (use rc in simp_all)
  qed
  then show ?case by (simp add: getDirectoryTree.simps[of "Dir es" p])
qed

lemma listing_names:
  assumes "readdir d = Inr entries"
  shows "map entry_name (listing_of d) = filter (\<lambda>n. \<not> startsWith n ''.git'') (sort entries)"
proof -
  let ?z = "zip (sort entries) (last_flags (length entries))"
  have "map entry_name (listing_of d) =
      map fst (filter (\<lambda>(name, lst). \<not> startsWith name ''.git'') ?z)"
    using assms by (simp add: listing_of.simps[of d] listed_def case_prod_unfold comp_def)
  also have "\<dots> = filter (\<lambda>n. \<not> startsWith n ''.git'') (map fst ?z)"
    by (simp add: filter_map comp_def case_prod_unfold)
  also have "map fst ?z = sort entries"
    by (simp add: length_last_flags)
  finally show ?thesis .
qed

lemma listing_children:
  assumes "l \<in> set (listing_of d)"
  shows "entry_children l = listing_of (entry_node d (entry_name l))"
proof (cases "readdir d")
  case (Inl e)
  with assms show ?thesis by (simp add: listing_of.simps[of d])
next
  case (Inr entries)
  with assms show ?thesis by (auto simp: listing_of.simps[of d])
qed

lemma levels_sorted_listing: "levels_sorted (listing_of d)"
proof (induction d rule: listing_of.induct)
  case (1 d)
  show ?case
  proof (cases "readdir d")
    case (Inl e)
    then show ?thesis by (simp add: listing_of.simps[of d] levels_sorted.simps[of "[]"])
  next
    case (Inr entries)
    have "sorted (map entry_name (listing_of d))"
      unfolding listing_names[OF Inr] by (simp add: sorted_wrt_filter)
    moreover have "levels_sorted (entry_children l)" if "l \<in> set (listing_of d)" for l
    proof -
      from that Inr obtain x where x: "x \<in> set (listed entries)"
        and l: "l = Entry (fst x) (snd x) (listing_of (entry_node d (fst x)))"
        by (auto simp: listing_of.simps[of d])
      from "1.IH"[OF Inr x, of "fst x" "snd x"] l show ?thesis by simp
    qed
    ultimately show ?thesis by (simp add: levels_sorted.simps[of "listing_of d"])
  qed
qed

lemma no_metadata_listing: "no_metadata (listing_of d)"
proof (induction d rule: listing_of.induct)
  case (1 d)
  show ?case
  proof (cases "readdir d")
    case (Inl e)
    then show ?thesis by (simp add: listing_of.simps[of d] no_metadata.simps[of "[]"])
  next
    case (Inr entries)
    have "\<not> startsWith (entry_name l) ''.git'' \<and> no_metadata (entry_children l)"
      if "l \<in> set (listing_of d)" for l
    proof -
      from that Inr obtain x where x: "x \<in> set (listed entries)"
        and l: "l = Entry (fst x) (snd x) (listing_of (entry_node d (fst x)))"
        by (auto simp: listing_of.simps[of d])
      from x have "\<not> startsWith (fst x) ''.git''"
        by (auto simp: listed_def)
      with "1.IH"[OF Inr x, of "fst x" "snd x"] l show ?thesis by simp
    qed
    then show ?thesis by (simp add: no_metadata.simps[of "listing_of d"])
  qed
qed


text \<open>When every name is skipped, the loop returns what it was given.\<close>

lemma tree_loop_all_metadata:
  assumes "\<forall>e \<in> set ents. startsWith e ''.git''"
  shows "tree_loop d p ents i acc = Inr acc"
proof (induction "length ents - i" arbitrary: i)
  case 0
  then show ?case by (simp add: tree_loop.simps[of d p ents i acc])
next
  case (Suc k)
  then have lt: "i < length ents" and k: "k = length ents - (i + 1)" by simp_all
  from lt assms have "startsWith (ents ! i) ''.git''" by simp
  with Suc.hyps(1)[OF k] lt show ?case
    by (simp add: tree_loop.simps[of d p ents i acc])
qed

text \<open>
  One round of the loop, and the loop on two directories whose listed entries look the
  same to \<^verbatim>\<open>stat\<close> and render to the same text.
\<close>

lemma tree_loop_step:
  assumes "i < length ents"
  shows "tree_loop d p ents i acc =
    (if startsWith (ents ! i) ''.git'' then tree_loop d p ents (Suc i) acc
     else
       (case stat_isDirectory (entry_node d (ents ! i)) of
          Inl e \<Rightarrow> Inl e
        | Inr isDir \<Rightarrow>
            if isDir then
              (case getDirectoryTree (entry_node d (ents ! i))
                      (p @ (if i = length ents - 1 then continuation_last else continuation_mid)) of
                 Inl e \<Rightarrow> Inl e
               | Inr sub \<Rightarrow>
                   tree_loop d p ents (Suc i)
                     (acc @ p @ (if i = length ents - 1 then connector_last else connector_mid) @
                      ents ! i @ newline @ sub))
            else
              tree_loop d p ents (Suc i)
                (acc @ p @ (if i = length ents - 1 then connector_last else connector_mid) @
                 ents ! i @ newline)))"
  using assms by (subst tree_loop.simps) (simp add: Let_def cong: sum.case_cong if_cong)

lemma tree_loop_cong:
  assumes same: "\<And>name. name \<in> set ents \<Longrightarrow> \<not> startsWith name ''.git'' \<Longrightarrow>
      stat_isDirectory (entry_node d name) = stat_isDirectory (entry_node d' name) \<and>
      (\<forall>p'. getDirectoryTree (entry_node d name) p' = getDirectoryTree (entry_node d' name) p')"
  shows "tree_loop d p ents i acc = tree_loop d' p ents i acc"
proof (induction "length ents - i" arbitrary: i acc)
  case 0
  then show ?case
    by (simp add: tree_loop.simps[of d p ents i acc] tree_loop.simps[of d' p ents i acc])
next
  case (Suc k)
  then have lt: "i < length ents" and k: "k = length ents - Suc i" by simp_all
  note IH = Suc.hyps(1)[OF k]
  show ?case
  proof (cases "startsWith (ents ! i) ''.git''")
    case True
    with IH[of acc] lt show ?thesis
      by (simp add: tree_loop_step[of i ents d] tree_loop_step[of i ents d'])
  next
    case False
    from lt have "ents ! i \<in> set ents" by simp
    from same[OF this False]
    have st: "stat_isDirectory (entry_node d' (ents ! i)) = stat_isDirectory (entry_node d (ents ! i))"
      and sub: "\<And>p'. getDirectoryTree (entry_node d' (ents ! i)) p' =
                     getDirectoryTree (entry_node d (ents ! i)) p'"
      by simp_all
    show ?thesis
      unfolding tree_loop_step[OF lt, of d] tree_loop_step[OF lt, of d'] st sub IH
      by (rule refl)
  qed
qed

lemma sort_mset_cong: "mset xs = mset ys \<Longrightarrow> sort xs = sort (ys :: string list)"
  by (rule properties_for_sort) simp_all

lemma getDirectoryTree_cong:
  assumes names: "mset (map fst es) = mset (map fst es')"
    and nodes: "\<And>name. \<not> startsWith name ''.git'' \<Longrightarrow> map_of es name = map_of es' name"
  shows "getDirectoryTree (Dir es) p = getDirectoryTree (Dir es') p"
proof -
  have "sort (map fst es) = sort (map fst es')"
    using names by (rule sort_mset_cong)
  moreover have "tree_loop (Dir es) p ents 0 [] = tree_loop (Dir es') p ents 0 []" for ents
    by (rule tree_loop_cong) (simp add: nodes)
  ultimately show ?thesis
    by (simp add: getDirectoryTree.simps[of "Dir es" p] getDirectoryTree.simps[of "Dir es'" p])
qed

lemma getDirectoryTree_order:
  assumes "mset es = mset es'" and "distinct (map fst es)"
  shows "getDirectoryTree (Dir es) p = getDirectoryTree (Dir es') p"
proof (rule getDirectoryTree_cong)
  from assms(1) have "mset (map fst es) = mset (map fst es')"
    by (metis mset_map)
  then show "mset (map fst es) = mset (map fst es')" .
  then have "distinct (map fst es')"
    using assms(2) by (metis mset_eq_imp_distinct_iff)
  moreover have "set es = set es'"
    using assms(1) by (metis mset_eq_setD)
  ultimately have "map_of es = map_of es'"
    using assms(2) by (simp add: map_of_inject_set)
  then show "map_of es name = map_of es' name" for name by simp
qed

lemma same_state_stat: "same_state c c' \<Longrightarrow> stat_isDirectory c = stat_isDirectory c'"
  by (cases rule: same_state.cases) auto

lemma same_state_render:
  "same_state d d' \<Longrightarrow> getDirectoryTree d p = getDirectoryTree d' p"
proof (induction arbitrary: p rule: same_state.induct)
  case (same_node d)
  show ?case by (rule refl)
next
  case (same_dir es es')
  have names: "sort (map fst es) = sort (map fst es')"
    using same_dir.hyps(1) by (rule sort_mset_cong)
  have "tree_loop (Dir es) p (sort (map fst es)) 0 [] =
        tree_loop (Dir es') p (sort (map fst es)) 0 []"
  proof (rule tree_loop_cong)
    fix name
    assume mem: "name \<in> set (sort (map fst es))" and listed: "\<not> startsWith name ''.git''"
    from mem have "name \<in> fst ` set es" by simp
    then obtain c where c: "map_of es name = Some c"
      by (metis domD dom_map_of_conv_image_fst)
    from same_dir.IH[OF listed c] obtain c' where c': "map_of es' name = Some c'"
      and st: "same_state c c'" and sub: "\<And>p'. getDirectoryTree c p' = getDirectoryTree c' p'"
      by blast
    from c c' same_state_stat[OF st] sub
    show "stat_isDirectory (entry_node (Dir es) name) = stat_isDirectory (entry_node (Dir es') name) \<and>
      (\<forall>p'. getDirectoryTree (entry_node (Dir es) name) p' =
             getDirectoryTree (entry_node (Dir es') name) p')"
      by simp
  qed
  then show ?case
    by (simp add: getDirectoryTree.simps[of "Dir es" p] getDirectoryTree.simps[of "Dir es'" p] names)
qed

lemma render_empty_or_metadata:
  assumes "readdir d = Inr entries" and "\<forall>e \<in> set entries. startsWith e ''.git''"
  shows "getDirectoryTree d p = Inr []"
  using assms by (simp add: getDirectoryTree.simps[of d p] tree_loop_all_metadata)

subsection \<open>cloneRepo\<close>

text \<open>
  The four ways through lines 26 to 37, by probe outcome, and what a call can have
  logged.
\<close>

lemma cloneRepo_reusable:
  assumes "cacheProbe env R w = Reusable"
  shows "cloneRepo env R (w, tr) = (Inr (tempDir env R), (w, tr))"
  using assms
  by (auto simp: cacheProbe_def cloneRepo_def reuse_existing_def Let_def
      split: if_splits sum.splits list.splits)

lemma cloneRepo_absent:
  assumes "cacheProbe env R w = Absent"
  shows "cloneRepo env R (w, tr) = clone_fresh env R (tempDir env R) (w, tr)"
  using assms
  by (auto simp: cacheProbe_def cloneRepo_def reuse_existing_def Let_def
      split: if_splits sum.splits list.splits)

lemma cloneRepo_invalid_remotes:
  assumes "cacheProbe env R w = Invalid"
    and "git_getRemotes env (tempDir env R) w = Inr remotes"
  shows "cloneRepo env R (w, tr) = clone_fresh env R (tempDir env R) (w, tr)"
  using assms
  by (auto simp: cacheProbe_def cloneRepo_def reuse_existing_def Let_def
      split: if_splits sum.splits list.splits)

lemma cloneRepo_invalid_error:
  assumes "cacheProbe env R w = Invalid"
    and "git_getRemotes env (tempDir env R) w = Inl e"
    and "fs_remove env (tempDir env R) w = (r, w0)"
  shows "cloneRepo env R (w, tr) =
    (case r of
       Some e' \<Rightarrow> (Inl e', (w0, tr @ [FsRemove (tempDir env R)]))
     | None \<Rightarrow> clone_fresh env R (tempDir env R) (w0, tr @ [FsRemove (tempDir env R)]))"
  using assms
  by (auto simp: cacheProbe_def cloneRepo_def reuse_existing_def Let_def
      split: if_splits sum.splits list.splits option.splits)

lemma clone_fresh_cases:
  assumes "clone_fresh env R dir (w, tr) = (res, (w', tr'))"
  shows "(\<exists>e. res = Inl e \<and> tr' = tr @ [FsEnsureDir dir]) \<or>
         (res = Inr dir \<and> tr' = tr @ [FsEnsureDir dir, GitClone R dir] \<and>
          (\<exists>w1. git_clone env R dir w1 = (None, w'))) \<or>
         (\<exists>e. res = Inl e \<and> tr' = tr @ [FsEnsureDir dir, GitClone R dir, FsRemove dir])"
  using assms
  by (auto simp: clone_fresh_def split: prod.splits option.splits)

lemma cloneRepo_success:
  assumes "cloneRepo env R (w, tr) = (Inr p, (w', tr'))"
  shows "p = tempDir env R \<and>
    ((cacheProbe env R w = Reusable \<and> w' = w \<and> tr' = tr) \<or>
     (cacheProbe env R w \<noteq> Reusable \<and>
      (\<exists>pre w1. (pre = [] \<or> pre = [FsRemove (tempDir env R)]) \<and>
         tr' = tr @ pre @ [FsEnsureDir (tempDir env R), GitClone R (tempDir env R)] \<and>
         git_clone env R (tempDir env R) w1 = (None, w'))))"
proof (cases "cacheProbe env R w")
  case Reusable
  with assms cloneRepo_reusable[OF Reusable, of tr] show ?thesis by simp
next
  case Absent
  with assms have "clone_fresh env R (tempDir env R) (w, tr) = (Inr p, (w', tr'))"
    by (simp add: cloneRepo_absent)
  from clone_fresh_cases[OF this] Absent show ?thesis by auto
next
  case Invalid
  show ?thesis
  proof (cases "git_getRemotes env (tempDir env R) w")
    case (Inr remotes)
    with assms Invalid have "clone_fresh env R (tempDir env R) (w, tr) = (Inr p, (w', tr'))"
      by (simp add: cloneRepo_invalid_remotes)
    from clone_fresh_cases[OF this] Invalid show ?thesis by auto
  next
    case (Inl e)
    obtain r w0 where rm: "fs_remove env (tempDir env R) w = (r, w0)"
      by (cases "fs_remove env (tempDir env R) w")
    show ?thesis
    proof (cases r)
      case (Some e')
      with assms show ?thesis
        by (simp add: cloneRepo_invalid_error[OF Invalid Inl rm])
    next
      case None
      with assms have "clone_fresh env R (tempDir env R) (w0, tr @ [FsRemove (tempDir env R)])
          = (Inr p, (w', tr'))"
        by (simp add: cloneRepo_invalid_error[OF Invalid Inl rm])
      from clone_fresh_cases[OF this] Invalid show ?thesis by auto
    qed
  qed
qed

lemma clone_fresh_events:
  assumes "clone_fresh env R dir (w, tr) = (res, (w', tr'))"
  shows "\<exists>new. tr' = tr @ new \<and> (\<forall>ev \<in> set new. event_path ev = dir) \<and> fetches new \<le> 1"
  using clone_fresh_cases[OF assms] by (auto simp: fetches_def)

lemma cloneRepo_events:
  assumes "cloneRepo env R (w, tr) = (res, (w', tr'))"
  shows "\<exists>new. tr' = tr @ new \<and> (\<forall>ev \<in> set new. event_path ev = tempDir env R) \<and>
               fetches new \<le> 1"
proof (cases "cacheProbe env R w")
  case Reusable
  with assms cloneRepo_reusable[OF Reusable, of tr] show ?thesis
    by (simp add: fetches_def)
next
  case Absent
  with assms have "clone_fresh env R (tempDir env R) (w, tr) = (res, (w', tr'))"
    by (simp add: cloneRepo_absent)
  then show ?thesis by (rule clone_fresh_events)
next
  case Invalid
  show ?thesis
  proof (cases "git_getRemotes env (tempDir env R) w")
    case (Inr remotes)
    with assms Invalid have "clone_fresh env R (tempDir env R) (w, tr) = (res, (w', tr'))"
      by (simp add: cloneRepo_invalid_remotes)
    then show ?thesis by (rule clone_fresh_events)
  next
    case (Inl e)
    obtain r w0 where rm: "fs_remove env (tempDir env R) w = (r, w0)"
      by (cases "fs_remove env (tempDir env R) w")
    show ?thesis
    proof (cases r)
      case (Some e')
      with assms have "tr' = tr @ [FsRemove (tempDir env R)]"
        by (auto simp: cloneRepo_invalid_error[OF Invalid Inl rm])
      then show ?thesis
        by (intro exI[of _ "[FsRemove (tempDir env R)]"]) (simp add: fetches_def)
    next
      case None
      with assms have "clone_fresh env R (tempDir env R) (w0, tr @ [FsRemove (tempDir env R)])
          = (res, (w', tr'))"
        by (simp add: cloneRepo_invalid_error[OF Invalid Inl rm])
      from clone_fresh_events[OF this] obtain new
        where "tr' = (tr @ [FsRemove (tempDir env R)]) @ new"
          and "\<forall>ev \<in> set new. event_path ev = tempDir env R" and "fetches new \<le> 1"
        by blast
      then show ?thesis
        by (intro exI[of _ "FsRemove (tempDir env R) # new"]) (simp add: fetches_def)
    qed
  qed
qed



subsection \<open>Joining a plain segment\<close>

lemma split_slash_plain: "CHR ''/'' \<notin> set s \<Longrightarrow> split_slash s = [s]"
  by (induction s) auto

lemma fullPath_plain_segment:
  assumes "clean_root root" and "CHR ''/'' \<notin> set seg"
    and "seg \<noteq> []" and "seg \<noteq> ''.''" and "seg \<noteq> ''..''"
  shows "fullPath root seg = root @ CHR ''/'' # seg"
proof -
  have sp: "split_slash seg = [seg]"
    using assms(2) by (rule split_slash_plain)
  have "last seg \<in> set seg" using assms(3) by simp
  with assms(2) have "\<not> trailingSeparator seg"
    by (auto simp: trailingSeparator_def)
  then show ?thesis
    using fullPath_beneath[OF assms(1), of seg] assms(3-5)
    by (simp add: sp proper_segments_def)
qed

subsection \<open>The cache directory under a clean temporary directory\<close>

lemma repoHash_hex:
  assumes "hex_digest (sha256_hex env R)"
  shows "length (repoHash env R) = 12" and "set (repoHash env R) \<subseteq> set ''0123456789abcdef''"
proof -
  from assms show "length (repoHash env R) = 12"
    by (simp add: hex_digest_def repoHash_def)
  have "set (repoHash env R) \<subseteq> set (sha256_hex env R)"
    unfolding repoHash_def by (rule set_take_subset)
  with assms show "set (repoHash env R) \<subseteq> set ''0123456789abcdef''"
    unfolding hex_digest_def by (meson subset_trans)
qed

lemma tempDir_under_tmp:
  assumes hex: "hex_digest (sha256_hex env R)" and root: "clean_root (os_tmpdir env)"
  shows "tempDir env R = os_tmpdir env @ ''/github_tools_'' @ repoHash env R"
    and "clean_root (tempDir env R)"
proof -
  let ?name = "''github_tools_'' @ repoHash env R"
  let ?tmp = "os_tmpdir env"
  have "CHR ''/'' \<notin> set ''0123456789abcdef''" by simp
  with repoHash_hex(2)[OF hex] have "CHR ''/'' \<notin> set (repoHash env R)" by blast
  then have plain: "CHR ''/'' \<notin> set ?name" by simp
  then have joined: "fullPath ?tmp ?name = ?tmp @ CHR ''/'' # ?name"
    using root by (intro fullPath_plain_segment) simp_all
  then show dir: "tempDir env R = ?tmp @ ''/github_tools_'' @ repoHash env R"
    by (simp add: tempDir_def fullPath_def)
  have "?tmp \<noteq> []"
    using clean_root_shape(1)[OF root] .
  then have "fullPath ?tmp ?name = path_normalize (?tmp @ CHR ''/'' # ?name)"
    by (simp add: fullPath_def path_join_def)
  with joined have norm: "path_normalize (?tmp @ CHR ''/'' # ?name) = ?tmp @ CHR ''/'' # ?name"
    by simp
  have "last ?name \<in> set ?name" by simp
  with plain have "last ?name \<noteq> CHR ''/''" by metis
  then have "\<not> trailingSeparator (?tmp @ CHR ''/'' # ?name)"
    by (simp add: trailingSeparator_def)
  with norm dir show "clean_root (tempDir env R)"
    by (simp add: clean_root_def)
qed

subsection \<open>The example environment\<close>

lemma example_tempDir: "tempDir (example_env rs) example_url = example_dir_path"
  by (simp add: tempDir_def repoHash_def example_env_def example_url_def example_dir_path_def
      example_digest_def hex_byte_def path_join_def path_normalize_def path_segments_def
      isAbsolute_def trailingSeparator_def)


lemma example_probe_absent: "cacheProbe (example_env rs) example_url Map.empty = Absent"
  by (simp add: cacheProbe_def example_tempDir) (simp add: example_env_def)


lemma example_probe_stale:
  "cacheProbe (example_env rs) example_url
     [example_dir_path \<mapsto> WorkingCopy [origin ''https://example.com/other.git'']] = Invalid"
  by (simp add: cacheProbe_def example_tempDir)
     (simp add: example_env_def origin_def example_url_def)

lemma example_first_call:
  "cloneRepo (example_env [example_url]) example_url (Map.empty, []) =
     (Inr example_dir_path,
      ([example_dir_path \<mapsto> WorkingCopy [origin example_url]],
       [FsEnsureDir example_dir_path, GitClone example_url example_dir_path]))"
  by (simp add: cloneRepo_absent example_probe_absent example_tempDir clone_fresh_def)
     (simp add: example_env_def)

lemma example_failed_call:
  "cloneRepo (example_env []) example_url (Map.empty, []) =
     (Inl ''Failed to clone repository: fatal: repository not found'',
      (Map.empty,
       [FsEnsureDir example_dir_path, GitClone example_url example_dir_path,
        FsRemove example_dir_path]))"
  by (simp add: cloneRepo_absent example_probe_absent example_tempDir clone_fresh_def)
     (simp add: example_env_def)

lemma example_digest_hex: "hex_digest (example_digest s)"
proof -
  define digits where "digits = ''0123456789abcdef''"
  have len: "length digits = 16" by (simp add: digits_def)
  have "set (hex_byte c) \<subseteq> set digits" for c
  proof -
    have "of_char c div 16 < length digits" "of_char c mod 16 < length digits"
      using nat_of_char_less_256[of c] by (simp_all add: len div_less_iff_less_mult)
    then have "digits ! (of_char c div 16) \<in> set digits"
      and "digits ! (of_char c mod 16) \<in> set digits"
      by (simp_all only: nth_mem)
    then show ?thesis
      unfolding hex_byte_def digits_def[symmetric] by simp
  qed
  moreover have "CHR ''0'' \<in> set digits" by (simp add: digits_def)
  ultimately have "set (concat (map hex_byte (rev s)) @ replicate 64 CHR ''0'') \<subseteq> set digits"
    by auto
  then have "set (example_digest s) \<subseteq> set digits"
    unfolding example_digest_def by (meson set_take_subset subset_trans)
  moreover have "length (example_digest s) = 64"
    by (simp add: example_digest_def)
  ultimately show ?thesis by (simp add: hex_digest_def digits_def)
qed

lemma clean_root_tmp: "clean_root ''/tmp''"
  by (simp add: clean_root_def path_normalize_def path_segments_def isAbsolute_def
      trailingSeparator_def)

lemma example_tree_text: "getDirectoryTree example_tree [] = Inr example_text"
  by (simp add: example_tree_def example_text_def getDirectoryTree.simps tree_loop.simps
      startsWith_def Let_def)

lemma example_listing:
  "listing_of example_tree =
     [Entry ''README.md'' False [],
      Entry ''src'' True [Entry ''a.js'' False [], Entry ''b.js'' True []]]"
  by (simp add: example_tree_def listing_of.simps listed_def last_flags_def startsWith_def)

lemma example_read_files:
  "readAll (example_env rs) example_dir_path [''a.txt'', ''missing.txt'', ''locked.txt'']
     example_files =
   [''a.txt'' \<mapsto> ''hello'',
    ''missing.txt'' \<mapsto> ''Error: File not found'',
    ''locked.txt'' \<mapsto> ''Error reading file: EACCES: permission denied, open'']"
  by (simp add: readAll_def set_property_def read_entry_def example_env_def fullPath_def
      example_files_def example_dir_path_def path_join_def path_normalize_def
      path_segments_def isAbsolute_def trailingSeparator_def)

lemma example_warm_call:
  "cloneRepo (example_env rs) example_url (example_files, tr) =
     (Inr example_dir_path, (example_files, tr))"
proof -
  have "cacheProbe (example_env rs) example_url example_files = Reusable"
    by (simp add: cacheProbe_def example_tempDir)
       (simp add: example_env_def origin_def example_files_def example_dir_path_def)
  then show ?thesis
    by (simp add: cloneRepo_reusable example_tempDir)
qed




lemma example_same_state: "same_state example_tree example_tree_reordered"
  unfolding example_tree_def example_tree_reordered_def
proof (rule same_dir)
  fix name c
  assume "\<not> startsWith name ''.git''"
    and "map_of [(''src'', Dir [(''b.js'', File), (''a.js'', File)]),
                 (''.git'', DirUnreadable ''EACCES''), (''README.md'', File)] name = Some c"
  moreover have "same_state (Dir [(''b.js'', File), (''a.js'', File)])
                            (Dir [(''a.js'', File), (''b.js'', File)])"
    by (rule same_dir) (auto intro: same_node split: if_splits)
  ultimately show "\<exists>c'. map_of [(''README.md'', File), (''.git'', Dir [(''HEAD'', File)]),
          (''src'', Dir [(''a.js'', File), (''b.js'', File)])] name = Some c' \<and> same_state c c'"
    by (auto intro: same_node simp: startsWith_def split: if_splits)
qed simp

section \<open>The claims\<close>

subsection \<open>Acquisition\<close>


text \<open>
  The two other conditions of the amended claim: a cache that can be reused before the
  first call is never fetched, and a remote that cannot be reached is tried by each
  call.
\<close>

lemma warm_cache_never_fetched:
  "cloneRepo (example_env [example_url]) example_url (example_files, []) =
     (Inr example_dir_path, (example_files, [])) \<and>
   fetches [] = 0"
  by (simp add: example_warm_call fetches_def)

lemma unreachable_remote_tried_by_each_call:
  "cloneRepo (example_env []) example_url (Map.empty, tr) =
     (Inl ''Failed to clone repository: fatal: repository not found'',
      (Map.empty,
       tr @ [FsEnsureDir example_dir_path, GitClone example_url example_dir_path,
             FsRemove example_dir_path]))"
  by (simp add: cloneRepo_absent example_probe_absent example_tempDir clone_fresh_def)
     (simp add: example_env_def)



text \<open>
  The directory is removed before the fetch when inspecting it throws, as for a
  directory that is no working copy.
\<close>

lemma unrecognised_directory_removed_first:
  "cloneRepo (example_env [example_url]) example_url ([example_dir_path \<mapsto> PlainDir], []) =
     (Inr example_dir_path,
      ([example_dir_path \<mapsto> WorkingCopy [origin example_url]],
       [FsRemove example_dir_path, FsEnsureDir example_dir_path,
        GitClone example_url example_dir_path]))"
  by (simp add: cloneRepo_def example_tempDir)
     (simp add: reuse_existing_def clone_fresh_def example_env_def)

text \<open>
  When \<^verbatim>\<open>getRemotes\<close> answers and the first remote is another URL (or there is no
  remote), the \<^verbatim>\<open>if\<close> of line 30 falls through: the call continues at line 39 in the
  unchanged world, with the stale directory in place.
\<close>

lemma stale_remote_falls_through:
  assumes "cacheProbe env R w = Invalid"
    and "git_getRemotes env (tempDir env R) w = Inr remotes"
  shows "cloneRepo env R (w, tr) = clone_fresh env R (tempDir env R) (w, tr)"
  using assms by (rule cloneRepo_invalid_remotes)

text \<open>
  Claim C2. The claim wants a directory whose recorded remote is not \<open>R\<close> removed before
  the fetch, and the fetch to succeed. The code removes the directory only in the
  \<^verbatim>\<open>catch\<close> block of line 33. In the example world, with a working copy of another
  origin in the cache directory of the URL, nothing is removed before the fetch; git
  refuses the occupied destination, and the call throws after removing the directory.
\<close>

theorem stale_remote_directory_not_removed:
  "cacheProbe (example_env [example_url]) example_url
     [example_dir_path \<mapsto> WorkingCopy [origin ''https://example.com/other.git'']] = Invalid \<and>
   cloneRepo (example_env [example_url]) example_url
     ([example_dir_path \<mapsto> WorkingCopy [origin ''https://example.com/other.git'']], []) =
     (Inl (''Failed to clone repository: '' @
           ''fatal: destination path already exists and is not an empty directory''),
      (Map.empty,
       [FsEnsureDir example_dir_path, GitClone example_url example_dir_path,
        FsRemove example_dir_path]))"
  using stale_remote_falls_through[where env = "example_env [example_url]"
      and R = example_url
      and w = "[example_dir_path \<mapsto> WorkingCopy [origin ''https://example.com/other.git'']]"
      and remotes = "[origin ''https://example.com/other.git'']" and tr = "[]"]
  by (simp add: example_probe_stale example_tempDir clone_fresh_def)
     (simp add: example_env_def)

text \<open>
  When the failed clone is followed by the removal, the removal is attempted whatever
  it answers; if it throws, its error is the one that leaves the function.
\<close>

lemma failed_fetch_cleanup_attempted:
  assumes "fs_ensureDir env dir w = (None, w1)"
    and "git_clone env R dir w1 = (Some cause, w2)"
    and "fs_remove env dir w2 = (r, w3)"
  shows "clone_fresh env R dir (w, tr) =
           (Inl (case r of None \<Rightarrow> ''Failed to clone repository: '' @ cause | Some e \<Rightarrow> e),
            (w3, tr @ [FsEnsureDir dir, GitClone R dir, FsRemove dir]))"
  using assms by (simp add: clone_fresh_def split: option.splits)

text \<open>
  Claim C3. If the cache directory is absent, is created, the clone into it fails with
  \<open>cause\<close> and the removal that follows succeeds, \<open>cloneRepo\<close> fails with the message
  \<^verbatim>\<open>Failed to clone repository: \<close> followed by \<open>cause\<close>, the log is the creation, the fetch
  and the removal of that directory, and the world it leaves is the one the removal
  left: the directory is not on disk.
\<close>

theorem failed_fetch_removes_directory:
  assumes "cacheProbe env R w = Absent"
    and "fs_ensureDir env (tempDir env R) w = (None, w1)"
    and "git_clone env R (tempDir env R) w1 = (Some cause, w2)"
    and "fs_remove env (tempDir env R) w2 = (None, w3)"
    and "\<not> fs_pathExists env (tempDir env R) w3"
  shows "cloneRepo env R (w, tr) =
           (Inl (''Failed to clone repository: '' @ cause),
            (w3, tr @ [FsEnsureDir (tempDir env R), GitClone R (tempDir env R),
                       FsRemove (tempDir env R)])) \<and>
         \<not> fs_pathExists env (tempDir env R) (fst (snd (cloneRepo env R (w, tr))))"
  using assms by (simp add: cloneRepo_absent clone_fresh_def)

theorem failed_fetch_removes_directory_witness:
  "cacheProbe (example_env []) example_url Map.empty = Absent \<and>
   fs_ensureDir (example_env []) (tempDir (example_env []) example_url) Map.empty =
     (None, [example_dir_path \<mapsto> EmptyDir]) \<and>
   git_clone (example_env []) example_url (tempDir (example_env []) example_url)
     [example_dir_path \<mapsto> EmptyDir] =
     (Some ''fatal: repository not found'', [example_dir_path \<mapsto> EmptyDir]) \<and>
   fs_remove (example_env []) (tempDir (example_env []) example_url)
     [example_dir_path \<mapsto> EmptyDir] = (None, Map.empty) \<and>
   \<not> fs_pathExists (example_env []) (tempDir (example_env []) example_url) Map.empty \<and>
   cloneRepo (example_env []) example_url (Map.empty, []) =
     (Inl ''Failed to clone repository: fatal: repository not found'',
      (Map.empty,
       [FsEnsureDir example_dir_path, GitClone example_url example_dir_path,
        FsRemove example_dir_path]))"
  using failed_fetch_removes_directory[where env = "example_env []" and R = example_url
      and w = Map.empty and ?w1.0 = "[example_dir_path \<mapsto> EmptyDir]"
      and cause = "''fatal: repository not found''"
      and ?w2.0 = "[example_dir_path \<mapsto> EmptyDir]" and ?w3.0 = Map.empty and tr = "[]"]
  by (simp add: example_probe_absent example_tempDir) (simp add: example_env_def)

subsection \<open>The batch reader\<close>

text \<open>
  Every requested path other than \<^verbatim>\<open>__proto__\<close> has its entry, whatever happens to the
  other paths; a path requested twice has one entry; no request, no entry.
\<close>

lemma read_files_lookup:
  "read_files env repoPath file_paths w results k =
     (if k \<in> set file_paths \<and> k \<noteq> ''__proto__'' then Some (read_entry env repoPath k w)
      else results k)"
  by (induction file_paths arbitrary: results) (auto simp: set_property_def)

lemma readAll_lookup:
  "readAll env repoPath file_paths w k =
     (if k \<in> set file_paths \<and> k \<noteq> ''__proto__'' then Some (read_entry env repoPath k w)
      else None)"
  by (simp add: readAll_def read_files_lookup)

lemma readAll_empty: "readAll env repoPath [] w = Map.empty"
  by (simp add: readAll_def)

text \<open>
  Claim C4. The claim wants one entry for each requested path. The results are kept
  in an object literal, and the assignment \<^verbatim>\<open>results['__proto__'] = ...\<close> of line 189, 191
  or 194 stores nothing: a request for \<^verbatim>\<open>a.txt\<close> and \<^verbatim>\<open>__proto__\<close> yields a mapping with
  the one key \<^verbatim>\<open>a.txt\<close>.
\<close>

theorem proto_path_gets_no_entry:
  "readAll env repoPath [''a.txt'', ''__proto__''] w =
     [''a.txt'' \<mapsto> read_entry env repoPath ''a.txt'' w] \<and>
   ''__proto__'' \<notin> dom (readAll env repoPath [''a.txt'', ''__proto__''] w)"
  by (auto simp: readAll_def set_property_def)

subsection \<open>The renderer\<close>

text \<open>
  Claim C5. The text \<open>getDirectoryTree\<close> returns is the depth-first drawing of the
  listing of the directory, and on a tree that is readable throughout it does return.
  At each level the listing holds the names that do not begin with \<^verbatim>\<open>.git\<close>, in
  lexicographic order, each with the listing of its own directory below it; so every
  level is sorted and no listed name begins with the prefix. Two nodes that show the
  same directory state render to the same text: the order in which \<^verbatim>\<open>readdir\<close> lists
  the names of any directory, and whatever lies under a skipped entry, do not matter.
\<close>

theorem render_lists_sorted_entries_without_metadata:
  "(getDirectoryTree d prefix = Inr out \<longrightarrow> out = draw prefix (listing_of d)) \<and>
   (readable (Dir es) \<longrightarrow>
      getDirectoryTree (Dir es) prefix = Inr (draw prefix (listing_of (Dir es)))) \<and>
   (readdir d = Inr entries \<longrightarrow>
      map entry_name (listing_of d) = filter (\<lambda>n. \<not> startsWith n ''.git'') (sort entries)) \<and>
   (l \<in> set (listing_of d) \<longrightarrow>
      entry_children l = listing_of (entry_node d (entry_name l))) \<and>
   levels_sorted (listing_of d) \<and> no_metadata (listing_of d) \<and>
   (same_state d d' \<longrightarrow> getDirectoryTree d prefix = getDirectoryTree d' prefix)"
proof (intro conjI impI)
  assume "getDirectoryTree d prefix = Inr out"
  then show "out = draw prefix (listing_of d)" by (rule getDirectoryTree_draw)
next
  assume "readable (Dir es)"
  then obtain rendered where "getDirectoryTree (Dir es) prefix = Inr rendered"
    using readable_renders by blast
  then show "getDirectoryTree (Dir es) prefix = Inr (draw prefix (listing_of (Dir es)))"
    using getDirectoryTree_draw by blast
next
  assume "readdir d = Inr entries"
  then show "map entry_name (listing_of d) =
      filter (\<lambda>n. \<not> startsWith n ''.git'') (sort entries)"
    by (rule listing_names)
next
  assume "l \<in> set (listing_of d)"
  then show "entry_children l = listing_of (entry_node d (entry_name l))"
    by (rule listing_children)
next
  show "levels_sorted (listing_of d)" by (rule levels_sorted_listing)
  show "no_metadata (listing_of d)" by (rule no_metadata_listing)
next
  assume "same_state d d'"
  then show "getDirectoryTree d prefix = getDirectoryTree d' prefix"
    by (rule same_state_render)
qed

theorem render_lists_sorted_entries_without_metadata_witness:
  "getDirectoryTree example_tree [] = Inr example_text \<and>
   example_text = draw [] (listing_of example_tree) \<and>
   readable (Dir [(''b.js'', File), (''a.js'', File)]) \<and>
   getDirectoryTree (Dir [(''b.js'', File), (''a.js'', File)]) [] =
     Inr (draw [] (listing_of (Dir [(''b.js'', File), (''a.js'', File)]))) \<and>
   readdir example_tree = Inr [''src'', ''.git'', ''README.md''] \<and>
   map entry_name (listing_of example_tree) = [''README.md'', ''src''] \<and>
   Entry ''src'' True [Entry ''a.js'' False [], Entry ''b.js'' True []]
     \<in> set (listing_of example_tree) \<and>
   listing_of (entry_node example_tree ''src'') =
     [Entry ''a.js'' False [], Entry ''b.js'' True []] \<and>
   levels_sorted (listing_of example_tree) \<and>
   no_metadata (listing_of example_tree) \<and>
   same_state example_tree example_tree_reordered \<and>
   getDirectoryTree example_tree_reordered [] = Inr example_text"
proof -
  let ?l = "Entry ''src'' True [Entry ''a.js'' False [], Entry ''b.js'' True []]"
  note at_tree = render_lists_sorted_entries_without_metadata[where d = example_tree
      and prefix = "[]" and out = example_text and es = "[(''b.js'', File), (''a.js'', File)]"
      and entries = "[''src'', ''.git'', ''README.md'']" and l = ?l
      and d' = example_tree_reordered]
  have rendered: "getDirectoryTree example_tree [] = Inr example_text"
    by (rule example_tree_text)
  have rd: "readdir example_tree = Inr [''src'', ''.git'', ''README.md'']"
    by (simp add: example_tree_def)
  have mem: "?l \<in> set (listing_of example_tree)"
    by (simp add: example_listing)
  have same: "same_state example_tree example_tree_reordered"
    by (rule example_same_state)
  from at_tree rendered have drawn: "example_text = draw [] (listing_of example_tree)"
    by blast
  have small: "readable (Dir [(''b.js'', File), (''a.js'', File)])"
    by simp
  with at_tree have total: "getDirectoryTree (Dir [(''b.js'', File), (''a.js'', File)]) [] =
     Inr (draw [] (listing_of (Dir [(''b.js'', File), (''a.js'', File)])))"
    by blast
  from at_tree rd have "map entry_name (listing_of example_tree) =
      filter (\<lambda>n. \<not> startsWith n ''.git'') (sort [''src'', ''.git'', ''README.md''])"
    by blast
  then have listed_names: "map entry_name (listing_of example_tree) = [''README.md'', ''src'']"
    by (simp add: startsWith_def)
  from at_tree mem have "entry_children ?l = listing_of (entry_node example_tree (entry_name ?l))"
    by blast
  then have kids: "listing_of (entry_node example_tree ''src'') =
      [Entry ''a.js'' False [], Entry ''b.js'' True []]"
    by simp
  from at_tree have sorted_all: "levels_sorted (listing_of example_tree)"
    and clean: "no_metadata (listing_of example_tree)"
    by blast+
  from at_tree same
  have "getDirectoryTree example_tree [] = getDirectoryTree example_tree_reordered []"
    by blast
  with rendered have reordered: "getDirectoryTree example_tree_reordered [] = Inr example_text"
    by simp
  from rendered drawn small total rd listed_names mem kids sorted_all clean same reordered
  show ?thesis by (simp only: simp_thms)
qed

text \<open>
  Claim C6. The claim wants the last entry of every rendered listing drawn with the
  terminal connector. The code decides \<open>isLast\<close> by the position in the sorted names
  before the metadata entries are skipped (line 61), so when the names that sort last
  are skipped, the last entry that is listed gets the mid-branch connector. In a
  directory that holds \<^verbatim>\<open>.env\<close> and \<^verbatim>\<open>.gitignore\<close>, the only listed line is that of
  \<^verbatim>\<open>.env\<close>, and it is drawn with the mid-branch connector.
\<close>

theorem last_listed_entry_drawn_mid_branch:
  "getDirectoryTree (Dir [(''.env'', File), (''.gitignore'', File)]) [] =
     Inr (connector_mid @ ''.env'' @ newline)"
  by (simp add: getDirectoryTree.simps tree_loop.simps startsWith_def Let_def)

text \<open>
  The example of the specification itself holds, because \<^verbatim>\<open>.git\<close> sorts before
  \<^verbatim>\<open>x.txt\<close>.
\<close>

lemma spec_example_x_txt:
  "getDirectoryTree (Dir [(''.git'', Dir [(''HEAD'', File)]), (''x.txt'', File)]) [] =
     Inr (connector_last @ ''x.txt'' @ newline)"
  by (simp add: getDirectoryTree.simps tree_loop.simps startsWith_def Let_def)

text \<open>
  Claim C9. A directory whose listing is empty, or in which every name begins with
  \<^verbatim>\<open>.git\<close>, renders as the empty string and the render does not fail: no entry is
  examined, so neither an unreadable metadata directory nor a dangling entry matters.
\<close>

theorem metadata_only_directory_renders_empty:
  assumes "readdir d = Inr entries"
    and "\<forall>e \<in> set entries. startsWith e ''.git''"
  shows "getDirectoryTree d prefix = Inr []"
  using assms by (rule render_empty_or_metadata)

theorem metadata_only_directory_renders_empty_witness:
  "readdir (Dir []) = Inr [] \<and> getDirectoryTree (Dir []) ''| '' = Inr [] \<and>
   readdir (Dir [(''.gitignore'', File), (''.git'', DirUnreadable ''EACCES'')]) =
     Inr [''.gitignore'', ''.git''] \<and>
   startsWith ''.gitignore'' ''.git'' \<and> startsWith ''.git'' ''.git'' \<and>
   getDirectoryTree (Dir [(''.gitignore'', File), (''.git'', DirUnreadable ''EACCES'')]) [] = Inr []"
  using metadata_only_directory_renders_empty[of "Dir []" "[]" "''| ''"]
    metadata_only_directory_renders_empty[of
      "Dir [(''.gitignore'', File), (''.git'', DirUnreadable ''EACCES'')]"
      "[''.gitignore'', ''.git'']" "[]"]
  by (simp add: startsWith_def)

subsection \<open>The handlers\<close>

text \<open>
  The loop of the file reader on a request of strings is \<open>read_files\<close>; an element that
  is not a string ends it with what \<^verbatim>\<open>path.join\<close> throws.
\<close>

lemma read_values_strings:
  "read_values env repoPath (map JString paths) w results =
     Inr (read_files env repoPath paths w results)"
  by (induction paths arbitrary: results) simp_all

lemma read_values_not_string:
  "read_values env repoPath (map JString paths @ NotString cause # rest) w results = Inl cause"
  by (induction paths arbitrary: results) simp_all

lemma read_values_throws:
  "isl (read_values env repoPath elements w results) = (\<not> list_all is_string elements)"
  by (induction env repoPath elements w results rule: read_values.induct) simp_all

lemma read_request_throws:
  "isl (read_request env repoPath file_paths w) = (\<not> strings_only file_paths)"
  by (cases file_paths) (simp_all add: read_request_def read_values_throws)

text \<open>
  Claim C7 says that, for the file reader, only an acquisition failure gives the
  soft-failure result. The handler does not check its arguments, and the \<^verbatim>\<open>for\<close>-\<^verbatim>\<open>of\<close>
  header and \<^verbatim>\<open>path.join\<close> of lines 185 and 186 stand outside the inner \<^verbatim>\<open>try\<close>: with a
  cache that is reused, a request whose second element is not a string, and a request
  without \<^verbatim>\<open>file_paths\<close>, give the soft-failure result, and the content read for the first
  element is lost.
\<close>

theorem malformed_paths_give_soft_failure:
  "cloneRepo (example_env [example_url]) example_url (example_files, []) =
     (Inr example_dir_path, (example_files, [])) \<and>
   handleGitReadImportantFiles (example_env [example_url]) example_url
       (JArray [JString ''a.txt'', NotString path_type_error]) (example_files, []) =
     (\<lparr>content_block =
         Json [''error'' \<mapsto> ''Failed to process repository: '' @ path_type_error],
       isError = True\<rparr>,
      (example_files, [])) \<and>
   handleGitReadImportantFiles (example_env [example_url]) example_url
       (NotIterable not_iterable_error) (example_files, []) =
     (\<lparr>content_block =
         Json [''error'' \<mapsto> ''Failed to process repository: file_paths is not iterable''],
       isError = True\<rparr>,
      (example_files, []))"
  by (simp add: example_warm_call handleGitReadImportantFiles_def read_request_def
      not_iterable_error_def)

text \<open>
  Claim C7, amended. When \<open>cloneRepo\<close> throws, both handlers return a result with
  \<^verbatim>\<open>isError\<close> set whose text carries the message: \<^verbatim>\<open>Error: \<close> and the message for the
  directory structure, the object with the one key \<^verbatim>\<open>error\<close> and the value
  \<^verbatim>\<open>Failed to process repository: \<close> and the message for the file reader; neither does
  anything after the failed acquisition. When \<open>cloneRepo\<close> returns and \<^verbatim>\<open>file_paths\<close> is an
  array of strings, the file reader's result has \<^verbatim>\<open>isError\<close> unset and carries a mapping
  whose keys are the requested paths (\<^verbatim>\<open>__proto__\<close> apart, see claim C4), each with its own
  outcome: the marker \<^verbatim>\<open>Error: File not found\<close> when the joined path does not exist, the
  content when it is read, \<^verbatim>\<open>Error reading file: \<close> and the cause when reading fails. When
  \<^verbatim>\<open>file_paths\<close> is not iterable, or an element of it is not a string, the result is the
  soft-failure one, with the message of what was thrown. So the file reader sets
  \<^verbatim>\<open>isError\<close> exactly when the acquisition fails or \<^verbatim>\<open>file_paths\<close> is not an array of strings.
\<close>

theorem soft_failure_on_acquisition_or_malformed_paths:
  "(cloneRepo env repo_url s = (Inl msg, s1) \<longrightarrow>
      handleGitDirectoryStructure env repo_url s =
        (\<lparr>content_block = Plain (''Error: '' @ msg), isError = True\<rparr>, s1) \<and>
      handleGitReadImportantFiles env repo_url file_paths s =
        (\<lparr>content_block = Json [''error'' \<mapsto> ''Failed to process repository: '' @ msg],
          isError = True\<rparr>, s1)) \<and>
   (cloneRepo env repo_url s = (Inr repoPath, s1) \<longrightarrow>
      handleGitReadImportantFiles env repo_url (JArray (map JString paths)) s =
        (\<lparr>content_block = Json (readAll env repoPath paths (fst s1)), isError = False\<rparr>, s1) \<and>
      dom (readAll env repoPath paths (fst s1)) = set paths - {''__proto__''} \<and>
      (\<forall>k \<in> set paths. k \<noteq> ''__proto__'' \<longrightarrow>
         readAll env repoPath paths (fst s1) k =
           Some (if fs_pathExists env (path_join [repoPath, k]) (fst s1)
                 then (case fs_readFile env (path_join [repoPath, k]) (fst s1) of
                         Inr data \<Rightarrow> data
                       | Inl cause \<Rightarrow> ''Error reading file: '' @ cause)
                 else ''Error: File not found'')) \<and>
      handleGitReadImportantFiles env repo_url (NotIterable thrown) s =
        (\<lparr>content_block = Json [''error'' \<mapsto> ''Failed to process repository: '' @ thrown],
          isError = True\<rparr>, s1) \<and>
      handleGitReadImportantFiles env repo_url
          (JArray (map JString paths @ NotString thrown # rest)) s =
        (\<lparr>content_block = Json [''error'' \<mapsto> ''Failed to process repository: '' @ thrown],
          isError = True\<rparr>, s1)) \<and>
   isError (fst (handleGitReadImportantFiles env repo_url file_paths s)) =
     (isl (fst (cloneRepo env repo_url s)) \<or> \<not> strings_only file_paths)"
proof (intro conjI impI)
  assume run: "cloneRepo env repo_url s = (Inl msg, s1)"
  show "handleGitDirectoryStructure env repo_url s =
        (\<lparr>content_block = Plain (''Error: '' @ msg), isError = True\<rparr>, s1)"
    by (simp add: run handleGitDirectoryStructure_def)
  show "handleGitReadImportantFiles env repo_url file_paths s =
        (\<lparr>content_block = Json [''error'' \<mapsto> ''Failed to process repository: '' @ msg],
          isError = True\<rparr>, s1)"
    by (simp add: run handleGitReadImportantFiles_def)
next
  assume run: "cloneRepo env repo_url s = (Inr repoPath, s1)"
  show "handleGitReadImportantFiles env repo_url (JArray (map JString paths)) s =
        (\<lparr>content_block = Json (readAll env repoPath paths (fst s1)), isError = False\<rparr>, s1)"
    by (simp add: run handleGitReadImportantFiles_def read_request_def read_values_strings
        readAll_def)
  show "dom (readAll env repoPath paths (fst s1)) = set paths - {''__proto__''}"
    by (auto simp: readAll_lookup dom_def)
  show "\<forall>k \<in> set paths. k \<noteq> ''__proto__'' \<longrightarrow>
         readAll env repoPath paths (fst s1) k =
           Some (if fs_pathExists env (path_join [repoPath, k]) (fst s1)
                 then (case fs_readFile env (path_join [repoPath, k]) (fst s1) of
                         Inr data \<Rightarrow> data
                       | Inl cause \<Rightarrow> ''Error reading file: '' @ cause)
                 else ''Error: File not found'')"
    by (simp add: readAll_lookup read_entry_def fullPath_def)
  show "handleGitReadImportantFiles env repo_url (NotIterable thrown) s =
        (\<lparr>content_block = Json [''error'' \<mapsto> ''Failed to process repository: '' @ thrown],
          isError = True\<rparr>, s1)"
    by (simp add: run handleGitReadImportantFiles_def read_request_def)
  show "handleGitReadImportantFiles env repo_url
          (JArray (map JString paths @ NotString thrown # rest)) s =
        (\<lparr>content_block = Json [''error'' \<mapsto> ''Failed to process repository: '' @ thrown],
          isError = True\<rparr>, s1)"
    by (simp add: run handleGitReadImportantFiles_def read_request_def read_values_not_string)
next
  obtain r s' where run: "cloneRepo env repo_url s = (r, s')"
    by (cases "cloneRepo env repo_url s")
  show "isError (fst (handleGitReadImportantFiles env repo_url file_paths s)) =
     (isl (fst (cloneRepo env repo_url s)) \<or> \<not> strings_only file_paths)"
  proof (cases r)
    case (Inl msg)
    then show ?thesis by (simp add: run handleGitReadImportantFiles_def)
  next
    case (Inr repoPath)
    show ?thesis
      using read_request_throws[of env repoPath file_paths "fst s'"]
      by (cases "read_request env repoPath file_paths (fst s')")
         (simp_all add: run Inr handleGitReadImportantFiles_def)
  qed
qed

theorem soft_failure_on_acquisition_or_malformed_paths_witness:
  "handleGitDirectoryStructure (example_env []) example_url (Map.empty, []) =
     (\<lparr>content_block =
         Plain ''Error: Failed to clone repository: fatal: repository not found'',
       isError = True\<rparr>,
      (Map.empty,
       [FsEnsureDir example_dir_path, GitClone example_url example_dir_path,
        FsRemove example_dir_path])) \<and>
   handleGitReadImportantFiles (example_env []) example_url
       (JArray [JString ''a.txt'', JString ''missing.txt'', JString ''locked.txt''])
       (Map.empty, []) =
     (\<lparr>content_block =
         Json [''error'' \<mapsto> ''Failed to process repository: Failed to clone repository: fatal: repository not found''],
       isError = True\<rparr>,
      (Map.empty,
       [FsEnsureDir example_dir_path, GitClone example_url example_dir_path,
        FsRemove example_dir_path])) \<and>
   handleGitReadImportantFiles (example_env [example_url]) example_url
       (JArray [JString ''a.txt'', JString ''missing.txt'', JString ''locked.txt''])
       (example_files, []) =
     (\<lparr>content_block =
         Json [''a.txt'' \<mapsto> ''hello'',
               ''missing.txt'' \<mapsto> ''Error: File not found'',
               ''locked.txt'' \<mapsto> ''Error reading file: EACCES: permission denied, open''],
       isError = False\<rparr>,
      (example_files, [])) \<and>
   handleGitReadImportantFiles (example_env [example_url]) example_url
       (JArray [JString ''a.txt'', JString ''missing.txt'', JString ''locked.txt'',
                NotString path_type_error])
       (example_files, []) =
     (\<lparr>content_block =
         Json [''error'' \<mapsto> ''Failed to process repository: '' @ path_type_error],
       isError = True\<rparr>,
      (example_files, []))"
  using soft_failure_on_acquisition_or_malformed_paths[where env = "example_env []"
      and repo_url = example_url and s = "(Map.empty, [])"
      and msg = "''Failed to clone repository: fatal: repository not found''"
      and ?s1.0 = "(Map.empty,
       [FsEnsureDir example_dir_path, GitClone example_url example_dir_path,
        FsRemove example_dir_path])"
      and file_paths = "JArray [JString ''a.txt'', JString ''missing.txt'', JString ''locked.txt'']"]
    soft_failure_on_acquisition_or_malformed_paths[where env = "example_env [example_url]"
      and repo_url = example_url and s = "(example_files, [])" and repoPath = example_dir_path
      and ?s1.0 = "(example_files, [])"
      and paths = "[''a.txt'', ''missing.txt'', ''locked.txt'']"
      and thrown = path_type_error and rest = "[]"]
  by (simp add: example_failed_call example_warm_call example_read_files)

subsection \<open>The cache path\<close>

text \<open>
  Claim C8. The cache directory of a URL is the temporary directory joined with
  \<^verbatim>\<open>github_tools_\<close> and the first 12 characters of the digest of the URL: a function of
  the URL alone. For a digest of 64 hexadecimal digits these are 12 hexadecimal
  digits, and under a clean temporary directory the path is that directory, a
  separator and the name. Whatever the world, a call of \<open>cloneRepo\<close> returns no other
  path and touches no other path.
\<close>

theorem cache_directory_is_function_of_url:
  "tempDir env R = path_join [os_tmpdir env, ''github_tools_'' @ take 12 (sha256_hex env R)] \<and>
   (hex_digest (sha256_hex env R) \<longrightarrow>
      length (repoHash env R) = 12 \<and> set (repoHash env R) \<subseteq> set ''0123456789abcdef'' \<and>
      (clean_root (os_tmpdir env) \<longrightarrow>
         tempDir env R = os_tmpdir env @ ''/github_tools_'' @ repoHash env R)) \<and>
   (cloneRepo env R (w, tr) = (res, (w', tr')) \<longrightarrow>
      (\<forall>p. res = Inr p \<longrightarrow> p = tempDir env R) \<and>
      (\<exists>new. tr' = tr @ new \<and> (\<forall>ev \<in> set new. event_path ev = tempDir env R)))"
proof (intro conjI impI allI)
  show "tempDir env R = path_join [os_tmpdir env, ''github_tools_'' @ take 12 (sha256_hex env R)]"
    by (simp add: tempDir_def repoHash_def)
next
  assume h: "hex_digest (sha256_hex env R)"
  then show "length (repoHash env R) = 12"
    and "set (repoHash env R) \<subseteq> set ''0123456789abcdef''"
    by (rule repoHash_hex)+
  assume "clean_root (os_tmpdir env)"
  with h show "tempDir env R = os_tmpdir env @ ''/github_tools_'' @ repoHash env R"
    by (rule tempDir_under_tmp)
next
  fix p
  assume "cloneRepo env R (w, tr) = (res, (w', tr'))" and "res = Inr p"
  then show "p = tempDir env R"
    using cloneRepo_success[of env R w tr p w' tr'] by simp
next
  assume "cloneRepo env R (w, tr) = (res, (w', tr'))"
  from cloneRepo_events[OF this]
  show "\<exists>new. tr' = tr @ new \<and> (\<forall>ev \<in> set new. event_path ev = tempDir env R)"
    by blast
qed

theorem cache_directory_is_function_of_url_witness:
  "hex_digest (sha256_hex (example_env [example_url]) example_url) \<and>
   clean_root (os_tmpdir (example_env [example_url])) \<and>
   repoHash (example_env [example_url]) example_url = ''7469672e722f'' \<and>
   tempDir (example_env [example_url]) example_url = ''/tmp/github_tools_7469672e722f'' \<and>
   cloneRepo (example_env [example_url]) example_url (Map.empty, []) =
     (Inr ''/tmp/github_tools_7469672e722f'',
      ([''/tmp/github_tools_7469672e722f'' \<mapsto> WorkingCopy [origin example_url]],
       [FsEnsureDir ''/tmp/github_tools_7469672e722f'',
        GitClone example_url ''/tmp/github_tools_7469672e722f'']))"
  using cache_directory_is_function_of_url[where env = "example_env [example_url]"
      and R = example_url and w = Map.empty and tr = "[]"
      and res = "Inr ''/tmp/github_tools_7469672e722f''"
      and w' = "[''/tmp/github_tools_7469672e722f'' \<mapsto> WorkingCopy [origin example_url]]"
      and tr' = "[FsEnsureDir ''/tmp/github_tools_7469672e722f'',
        GitClone example_url ''/tmp/github_tools_7469672e722f'']"]
    example_digest_hex[of example_url] clean_root_tmp
    example_first_call example_tempDir[of "[example_url]"]
  by (simp add: example_dir_path_def)
     (simp add: example_env_def repoHash_def example_digest_def example_url_def hex_byte_def)

text \<open>
  Claim C10. The reader looks a requested path up at \<^verbatim>\<open>path.join(repoPath, filePath)\<close>
  and nowhere else. A leading separator of the requested path changes nothing: it does
  not replace the root. Under a clean root, a requested path without a parent-directory
  segment resolves to the root followed by the proper segments of the path, each behind
  a separator (and a trailing separator if the path has one). The root the reader is
  given, the cache directory, is clean when the temporary directory is and the digest
  is hexadecimal.
\<close>

theorem requested_path_joined_beneath_root:
  "read_entry env repoPath filePath w =
     (if fs_pathExists env (path_join [repoPath, filePath]) w then
        (case fs_readFile env (path_join [repoPath, filePath]) w of
           Inr data \<Rightarrow> data
         | Inl msg \<Rightarrow> ''Error reading file: '' @ msg)
      else ''Error: File not found'') \<and>
   (repoPath \<noteq> [] \<longrightarrow> filePath \<noteq> [] \<longrightarrow>
      path_join [repoPath, CHR ''/'' # filePath] = path_join [repoPath, filePath]) \<and>
   (clean_root repoPath \<longrightarrow> ''..'' \<notin> set (split_slash filePath) \<longrightarrow>
      path_join [repoPath, filePath] =
        repoPath @ concat (map (\<lambda>s. CHR ''/'' # s) (proper_segments filePath)) @
        (if trailingSeparator filePath then ''/'' else [])) \<and>
   (hex_digest (sha256_hex env R) \<longrightarrow> clean_root (os_tmpdir env) \<longrightarrow>
      clean_root (tempDir env R))"
  using fullPath_leading_slash[of repoPath filePath] fullPath_beneath[of repoPath filePath]
    tempDir_under_tmp(2)[of env R]
  by (simp add: read_entry_def fullPath_def)

theorem requested_path_joined_beneath_root_witness:
  "clean_root ''/tmp/github_tools_7469672e722f'' \<and>
   ''..'' \<notin> set (split_slash ''/src/./index.js'') \<and>
   path_join [''/tmp/github_tools_7469672e722f'', ''/src/./index.js''] =
     ''/tmp/github_tools_7469672e722f/src/index.js'' \<and>
   path_join [''/tmp/github_tools_7469672e722f'', ''src/./index.js''] =
     ''/tmp/github_tools_7469672e722f/src/index.js'' \<and>
   read_entry (example_env []) ''/tmp/github_tools_7469672e722f'' ''/src/./index.js'' Map.empty =
     ''Error: File not found'' \<and>
   hex_digest (sha256_hex (example_env []) example_url) \<and>
   clean_root (os_tmpdir (example_env [])) \<and>
   clean_root (tempDir (example_env []) example_url)"
proof -
  let ?root = "''/tmp/github_tools_7469672e722f''"
  have root: "clean_root ?root"
    by (simp add: clean_root_def path_normalize_def path_segments_def isAbsolute_def
        trailingSeparator_def)
  have segs: "split_slash ''/src/./index.js'' = [[], ''src'', ''.'', ''index.js'']"
    by simp
  have nodd: "''..'' \<notin> set (split_slash ''/src/./index.js'')"
    unfolding segs by simp
  have proper: "proper_segments ''/src/./index.js'' = [''src'', ''index.js'']"
    unfolding proper_segments_def segs by simp
  have tr: "\<not> trailingSeparator ''/src/./index.js''"
    by (simp add: trailingSeparator_def)
  note at_abs = requested_path_joined_beneath_root[where env = "example_env []"
      and repoPath = ?root and filePath = "''/src/./index.js''" and w = Map.empty
      and R = example_url]
  note at_rel = requested_path_joined_beneath_root[where env = "example_env []"
      and repoPath = ?root and filePath = "''src/./index.js''" and w = Map.empty
      and R = example_url]
  from at_abs root nodd have joined:
    "path_join [?root, ''/src/./index.js''] = ''/tmp/github_tools_7469672e722f/src/index.js''"
    by (simp only: proper tr) simp
  from at_rel have "path_join [?root, ''/src/./index.js''] = path_join [?root, ''src/./index.js'']"
    by simp
  with joined have same:
    "path_join [?root, ''src/./index.js''] = ''/tmp/github_tools_7469672e722f/src/index.js''"
    by simp
  from at_abs have "read_entry (example_env []) ?root ''/src/./index.js'' Map.empty =
      ''Error: File not found''"
    by (simp only: joined) (simp add: example_env_def)
  moreover have digest: "hex_digest (sha256_hex (example_env []) example_url)"
    using example_digest_hex[of example_url] by (simp add: example_env_def)
  moreover have tmp: "clean_root (os_tmpdir (example_env []))"
    using clean_root_tmp by (simp add: example_env_def)
  moreover from at_abs digest tmp have "clean_root (tempDir (example_env []) example_url)"
    by blast
  ultimately show ?thesis
    using root nodd joined same by (simp only: simp_thms)
qed

text \<open>With parent-directory segments the resolved path can leave the root.\<close>

lemma parent_segments_escape:
  "path_join [''/tmp/github_tools_7469672e722f'', ''../../etc/passwd''] = ''/etc/passwd''"
  by (simp add: path_join_def path_normalize_def path_segments_def isAbsolute_def
      trailingSeparator_def)

end
